theory Spec2Isabelle
  imports Complex_Main "HOL-Library.Word"
begin

section \<open>Go values used by euroxref.go\<close>

subsection \<open>IEEE 754 binary floating point\<close>

text \<open>
  A \<open>float64\<close> of the program is a finite non-zero number \<open>Finite m e\<close>, denoting
  \<open>m * 2 ^ e\<close>, a signed zero, a signed infinity or a NaN (\<open>True\<close> is the negative
  sign). Numbers are kept in the one form the format's encoding has: a normal number has
  a mantissa of exactly \<open>mant_bits\<close> bits, a subnormal one the exponent \<open>min_exp\<close>, so
  two numbers are equal exactly when their models are. The sign and payload of a NaN are
  not modelled; no operation of the program reads them.
\<close>

datatype float64 = Finite int int | Zero bool | Infinity bool | NaN

record format =
  mant_bits :: nat
  min_exp :: int
  max_exp :: int

definition binary64 :: format where
  "binary64 = \<lparr>mant_bits = 53, min_exp = - 1074, max_exp = 1023\<rparr>"

definition binary32 :: format where
  "binary32 = \<lparr>mant_bits = 24, min_exp = - 149, max_exp = 127\<rparr>"

text \<open>
  The number of binary digits of a positive integer (counted sixteen, four or one at a
  time), and a left shift.
\<close>

function blen :: "int \<Rightarrow> int" where
  "blen n =
     (if n \<le> 0 then 0
      else if 65536 \<le> n then 16 + blen (n div 65536)
      else if 16 \<le> n then 4 + blen (n div 16)
      else 1 + blen (n div 2))"
  by pat_completeness auto
termination
  by (relation "measure nat") auto

declare blen.simps [simp del]

definition shl :: "int \<Rightarrow> int \<Rightarrow> int" where
  "shl m k = m * 2 ^ nat k"

text \<open>\<open>ilog2 a d\<close> is the exponent \<open>k\<close> with \<open>2 ^ k \<le> a / d < 2 ^ (k + 1)\<close>, for positive \<open>a\<close>, \<open>d\<close>.\<close>

definition ilog2 :: "int \<Rightarrow> int \<Rightarrow> int" where
  "ilog2 a d =
     (let k = blen a - blen d
      in if (if 0 \<le> k then shl d k \<le> a else d \<le> shl a (- k)) then k else k - 1)"

text \<open>The integer nearest to \<open>a / b\<close>, a tie going to the even one.\<close>

definition round_even :: "int \<Rightarrow> int \<Rightarrow> int" where
  "round_even a b =
     (let q = a div b; r = a mod b
      in if 2 * r < b then q else if b < 2 * r then q + 1 else if even q then q else q + 1)"

text \<open>
  Rounding the ratio \<open>n / d\<close> (\<open>0 < d\<close>) to the nearest number of a format: round to
  nearest, ties to even, with gradual underflow and overflow to an infinity.
  \<open>quantum\<close> is the exponent of the last mantissa bit at the magnitude of \<open>a / d\<close>,
  \<open>mantissa\<close> the ratio rounded to a multiple of it, and \<open>pack\<close> puts the result in
  the format's form (a mantissa that rounded up to \<open>2 ^ mant_bits\<close> moves to the next
  exponent).
\<close>

definition quantum :: "format \<Rightarrow> int \<Rightarrow> int \<Rightarrow> int" where
  "quantum fmt a d = max (ilog2 a d - (int (mant_bits fmt) - 1)) (min_exp fmt)"

definition mantissa :: "int \<Rightarrow> int \<Rightarrow> int \<Rightarrow> int" where
  "mantissa a d e = (if 0 \<le> e then round_even a (shl d e) else round_even (shl a (- e)) d)"

definition pack :: "format \<Rightarrow> bool \<Rightarrow> int \<Rightarrow> int \<Rightarrow> float64" where
  "pack fmt neg m e =
     (if m = 0 then Zero neg
      else if m = shl 1 (int (mant_bits fmt)) then
        (if max_exp fmt - int (mant_bits fmt) < e then Infinity neg
         else Finite (if neg then - shl 1 (int (mant_bits fmt) - 1)
                      else shl 1 (int (mant_bits fmt) - 1)) (e + 1))
      else if max_exp fmt - (int (mant_bits fmt) - 1) < e then Infinity neg
      else Finite (if neg then - m else m) e)"

definition round_at :: "format \<Rightarrow> bool \<Rightarrow> int \<Rightarrow> int \<Rightarrow> int \<Rightarrow> float64" where
  "round_at fmt neg a d e = pack fmt neg (mantissa a d e) e"

definition round_ratio :: "format \<Rightarrow> int \<Rightarrow> int \<Rightarrow> float64" where
  "round_ratio fmt n d =
     (if n = 0 then Zero False
      else round_at fmt (n < 0) \<bar>n\<bar> d (quantum fmt \<bar>n\<bar> d))"

text \<open>Rounding \<open>m * 2 ^ e\<close>.\<close>

definition round_dyadic :: "format \<Rightarrow> int \<Rightarrow> int \<Rightarrow> float64" where
  "round_dyadic fmt m e =
     (if 0 \<le> e then round_ratio fmt (shl m e) 1 else round_ratio fmt m (shl 1 (- e)))"

text \<open>
  A decimal constant \<open>n / d\<close> of the source (\<open>0.5\<close> is \<open>f64 1 2\<close>), and \<open>float64(n)\<close> of
  an integer.
\<close>

definition f64 :: "int \<Rightarrow> int \<Rightarrow> float64" where
  "f64 n d = round_ratio binary64 n d"

definition float64_of_int :: "int \<Rightarrow> float64" where
  "float64_of_int n = round_ratio binary64 n 1"

text \<open>The real number a float64 denotes; 0 where it denotes none.\<close>

definition valof :: "float64 \<Rightarrow> real" where
  "valof x = (case x of Finite m e \<Rightarrow> real_of_int m * 2 powi e | _ \<Rightarrow> 0)"

fun signbit :: "float64 \<Rightarrow> bool" where
  "signbit (Finite m e) = (m < 0)"
| "signbit (Zero s) = s"
| "signbit (Infinity s) = s"
| "signbit NaN = False"

fun is_zero :: "float64 \<Rightarrow> bool" where
  "is_zero (Zero s) = True"
| "is_zero _ = False"

fun is_inf :: "float64 \<Rightarrow> bool" where
  "is_inf (Infinity s) = True"
| "is_inf _ = False"

text \<open>\<open>x * y\<close>, \<open>x / y\<close> and \<open>x + y\<close> on float64, as IEEE 754 defines them.\<close>

fun fmul :: "float64 \<Rightarrow> float64 \<Rightarrow> float64" where
  "fmul (Finite m1 e1) (Finite m2 e2) = round_dyadic binary64 (m1 * m2) (e1 + e2)"
| "fmul x y =
     (if x = NaN \<or> y = NaN then NaN
      else if (is_inf x \<and> is_zero y) \<or> (is_zero x \<and> is_inf y) then NaN
      else if is_inf x \<or> is_inf y then Infinity (signbit x \<noteq> signbit y)
      else Zero (signbit x \<noteq> signbit y))"

fun fdiv :: "float64 \<Rightarrow> float64 \<Rightarrow> float64" where
  "fdiv (Finite m1 e1) (Finite m2 e2) =
     (if e2 \<le> e1
      then round_ratio binary64 (shl (if m2 < 0 then - m1 else m1) (e1 - e2)) \<bar>m2\<bar>
      else round_ratio binary64 (if m2 < 0 then - m1 else m1) (shl \<bar>m2\<bar> (e2 - e1)))"
| "fdiv x y =
     (if x = NaN \<or> y = NaN then NaN
      else if (is_inf x \<and> is_inf y) \<or> (is_zero x \<and> is_zero y) then NaN
      else if is_inf x \<or> is_zero y then Infinity (signbit x \<noteq> signbit y)
      else Zero (signbit x \<noteq> signbit y))"

fun fadd :: "float64 \<Rightarrow> float64 \<Rightarrow> float64" where
  "fadd (Finite m1 e1) (Finite m2 e2) =
     round_dyadic binary64 (shl m1 (e1 - min e1 e2) + shl m2 (e2 - min e1 e2)) (min e1 e2)"
| "fadd NaN y = NaN"
| "fadd x NaN = NaN"
| "fadd (Infinity s) (Infinity t) = (if s = t then Infinity s else NaN)"
| "fadd (Infinity s) y = Infinity s"
| "fadd x (Infinity t) = Infinity t"
| "fadd (Zero s) (Zero t) = Zero (s \<and> t)"
| "fadd (Zero s) y = y"
| "fadd x (Zero t) = x"

text \<open>\<open>x < y\<close> and \<open>x <= y\<close> on float64: false when an operand is a NaN.\<close>

fun fless :: "bool \<Rightarrow> float64 \<Rightarrow> float64 \<Rightarrow> bool" where
  "fless eq NaN y = False"
| "fless eq x NaN = False"
| "fless eq (Infinity s) (Infinity t) = (if eq then s \<or> \<not> t else s \<and> \<not> t)"
| "fless eq (Infinity s) y = s"
| "fless eq x (Infinity t) = (\<not> t)"
| "fless eq (Zero s) (Zero t) = eq"
| "fless eq (Zero s) (Finite m e) = (0 < m)"
| "fless eq (Finite m e) (Zero t) = (m < 0)"
| "fless eq (Finite m1 e1) (Finite m2 e2) =
     (if eq then shl m1 (e1 - min e1 e2) \<le> shl m2 (e2 - min e1 e2)
      else shl m1 (e1 - min e1 e2) < shl m2 (e2 - min e1 e2))"

definition flt :: "float64 \<Rightarrow> float64 \<Rightarrow> bool" where
  "flt x y = fless False x y"

definition fle :: "float64 \<Rightarrow> float64 \<Rightarrow> bool" where
  "fle x y = fless True x y"

text \<open>\<open>math.Copysign(x, y)\<close>: \<open>x\<close> with the sign of \<open>y\<close>.\<close>

fun fneg :: "float64 \<Rightarrow> float64" where
  "fneg (Finite m e) = Finite (- m) e"
| "fneg (Zero s) = Zero (\<not> s)"
| "fneg (Infinity s) = Infinity (\<not> s)"
| "fneg NaN = NaN"

definition Copysign :: "float64 \<Rightarrow> float64 \<Rightarrow> float64" where
  "Copysign x y = (if signbit x = signbit y then x else fneg x)"

text \<open>
  \<open>math.Pow(10, float64(p))\<close> for \<open>1 \<le> p\<close>. The power of ten is a binary64 number up to
  \<open>p = 22\<close>, where the library returns it exactly; above, the library's result is taken
  to be the correctly rounded power, which is \<open>+Inf\<close> from \<open>p = 309\<close> on.
\<close>

definition Pow10 :: "int \<Rightarrow> float64" where
  "Pow10 p = (if 308 < p then Infinity False else round_ratio binary64 (10 ^ nat p) 1)"

text \<open>
  A conversion of a float64 to an integer type discards the fraction. Where the
  truncated value is not in the type (or the operand is not finite) Go leaves the result
  to the implementation: \<open>cv x\<close> stands for what the platform yields there.
\<close>

fun trunc :: "float64 \<Rightarrow> int option" where
  "trunc (Finite m e) =
     Some (if 0 \<le> e then shl m e
           else if m < 0 then - (- m div shl 1 (- e)) else m div shl 1 (- e))"
| "trunc (Zero s) = Some 0"
| "trunc _ = None"

definition uint64_of :: "(float64 \<Rightarrow> 64 word) \<Rightarrow> float64 \<Rightarrow> 64 word" where
  "uint64_of cv x =
     (case trunc x of
        Some t \<Rightarrow> if 0 \<le> t \<and> t < 2 ^ 64 then word_of_int t else cv x
      | None \<Rightarrow> cv x)"

definition int_of :: "(float64 \<Rightarrow> int) \<Rightarrow> float64 \<Rightarrow> int" where
  "int_of cv x =
     (case trunc x of
        Some t \<Rightarrow> if - (2 ^ 63) \<le> t \<and> t < 2 ^ 63 then t else cv x
      | None \<Rightarrow> cv x)"

definition float64_of_uint64 :: "64 word \<Rightarrow> float64" where
  "float64_of_uint64 u = float64_of_int (uint u)"

subsection \<open>strconv.ParseFloat\<close>

text \<open>
  \<open>strconv.ParseFloat(s, bitSize)\<close> on the decimal syntax: an optional sign, digits with
  an optional point, an optional decimal exponent; or one of the words \<open>inf\<close>,
  \<open>infinity\<close>, \<open>nan\<close> in any case. The result is the number of the format nearest to
  the decimal (ties to even), as a float64; a decimal beyond the format's range is a range
  error. Hexadecimal mantissas and digit-separating underscores, which later versions of
  the library also read, are syntax errors here.
\<close>

datatype NumError = ErrSyntax | ErrRange

text \<open>The value of a decimal digit, a byte from \<open>'0'\<close> (48) to \<open>'9'\<close> (57).\<close>

definition digit :: "char \<Rightarrow> int option" where
  "digit c =
     (if 48 \<le> (of_char c :: nat) \<and> (of_char c :: nat) \<le> 57
      then Some (int (of_char c) - 48) else None)"

text \<open>
  \<open>special\<close> reads the words for the infinities and NaN; \<open>equalIgnoreCase\<close> compares
  byte by byte after moving the letters \<open>A\<close> to \<open>Z\<close> to lower case.
\<close>

definition lower :: "char \<Rightarrow> nat" where
  "lower c = (if 65 \<le> (of_char c :: nat) \<and> (of_char c :: nat) \<le> 90 then of_char c + 32 else of_char c)"

definition equalIgnoreCase :: "string \<Rightarrow> string \<Rightarrow> bool" where
  "equalIgnoreCase s1 s2 =
     (if length s1 \<noteq> length s2 then False else map lower s1 = map lower s2)"

fun special :: "string \<Rightarrow> float64 option" where
  "special [] = None"
| "special (c # cs) =
     (if c = CHR ''+'' then
        (if equalIgnoreCase (c # cs) ''+inf'' \<or> equalIgnoreCase (c # cs) ''+infinity''
         then Some (Infinity False) else None)
      else if c = CHR ''-'' then
        (if equalIgnoreCase (c # cs) ''-inf'' \<or> equalIgnoreCase (c # cs) ''-infinity''
         then Some (Infinity True) else None)
      else if c = CHR ''n'' \<or> c = CHR ''N'' then
        (if equalIgnoreCase (c # cs) ''nan'' then Some NaN else None)
      else if c = CHR ''i'' \<or> c = CHR ''I'' then
        (if equalIgnoreCase (c # cs) ''inf'' \<or> equalIgnoreCase (c # cs) ''infinity''
         then Some (Infinity False) else None)
      else None)"

text \<open>
  \<open>readFloat\<close>: the digits loop keeps the mantissa read so far, the number \<open>nd\<close> of
  its digits (leading zeros apart) and the place \<open>dp\<close> of the decimal point; it stops at
  the first character that is neither a digit nor the first point.
\<close>

record scan =
  sawdot :: bool
  sawdigits :: bool
  nd :: int
  dp :: int
  mant :: int

fun read_digits :: "string \<Rightarrow> scan \<Rightarrow> (scan \<times> string) option" where
  "read_digits [] st = Some (st, [])"
| "read_digits (c # cs) st =
     (if c = CHR ''.'' then
        (if sawdot st then None else read_digits cs (st\<lparr>sawdot := True, dp := nd st\<rparr>))
      else
        (case digit c of
           None \<Rightarrow> Some (st, c # cs)
         | Some v \<Rightarrow>
             if v = 0 \<and> nd st = 0
             then read_digits cs (st\<lparr>sawdigits := True, dp := dp st - 1\<rparr>)
             else read_digits cs (st\<lparr>sawdigits := True, nd := nd st + 1, mant := mant st * 10 + v\<rparr>)))"

text \<open>The digits of the exponent; the library stops accumulating from 10000 on.\<close>

fun read_exp :: "string \<Rightarrow> int \<Rightarrow> int \<times> string" where
  "read_exp [] e = (e, [])"
| "read_exp (c # cs) e =
     (case digit c of
        None \<Rightarrow> (e, c # cs)
      | Some v \<Rightarrow> read_exp cs (if e < 10000 then e * 10 + v else e))"

definition exponent :: "string \<Rightarrow> (int \<times> string) option" where
  "exponent s =
     (case s of
        [] \<Rightarrow> Some (0, [])
      | c # cs \<Rightarrow>
          if c = CHR ''e'' \<or> c = CHR ''E'' then
            (case cs of
               [] \<Rightarrow> None
             | c' # cs' \<Rightarrow>
                 let neg = (c' = CHR ''-'');
                     ds = (if c' = CHR ''+'' \<or> c' = CHR ''-'' then cs' else cs)
                 in (case ds of
                       [] \<Rightarrow> None
                     | c'' # _ \<Rightarrow>
                         if digit c'' = None then None
                         else (case read_exp ds 0 of
                                 (e, rest) \<Rightarrow> Some (if neg then - e else e, rest))))
          else Some (0, s))"

text \<open>
  The decimal read: its sign and the ratio \<open>n / d\<close> it denotes (\<open>mant * 10 ^ (dp - nd)\<close>).
\<close>

definition readFloat :: "string \<Rightarrow> (bool \<times> int \<times> int) option" where
  "readFloat s =
     (case s of
        [] \<Rightarrow> None
      | c # cs \<Rightarrow>
          let neg = (c = CHR ''-'');
              body = (if c = CHR ''+'' \<or> c = CHR ''-'' then cs else s)
          in (case read_digits body \<lparr>sawdot = False, sawdigits = False, nd = 0, dp = 0, mant = 0\<rparr> of
                None \<Rightarrow> None
              | Some (st, rest) \<Rightarrow>
                  if \<not> sawdigits st then None
                  else (case exponent rest of
                          None \<Rightarrow> None
                        | Some (e, rest') \<Rightarrow>
                            if rest' \<noteq> [] then None
                            else let x = (if sawdot st then dp st else nd st) + e - nd st
                                 in Some (neg,
                                          if 0 \<le> x then mant st * 10 ^ nat x else mant st,
                                          if 0 \<le> x then 1 else 10 ^ nat (- x)))))"

text \<open>A number of the smaller format as a float64 (exact).\<close>

fun widen :: "float64 \<Rightarrow> float64" where
  "widen (Finite m e) = round_dyadic binary64 m e"
| "widen x = x"

definition format_of :: "nat \<Rightarrow> format" where
  "format_of bitSize = (if bitSize = 32 then binary32 else binary64)"

fun parsed :: "bool \<Rightarrow> float64 \<Rightarrow> NumError + float64" where
  "parsed neg (Infinity s) = Inl ErrRange"
| "parsed neg (Zero s) = Inr (Zero neg)"
| "parsed neg v = Inr (widen (if neg then fneg v else v))"

fun atof :: "nat \<Rightarrow> (bool \<times> int \<times> int) option \<Rightarrow> NumError + float64" where
  "atof bitSize None = Inl ErrSyntax"
| "atof bitSize (Some (neg, n, d)) = parsed neg (round_ratio (format_of bitSize) n d)"

definition ParseFloat :: "string \<Rightarrow> nat \<Rightarrow> NumError + float64" where
  "ParseFloat s bitSize =
     (case special s of
        Some v \<Rightarrow> Inr v
      | None \<Rightarrow> atof bitSize (readFloat s))"

subsection \<open>time.Time\<close>

text \<open>
  A \<open>time.Time\<close> is modelled by its civil date in UTC and the nanoseconds since
  midnight; locations and the monotonic clock reading are left out. \<open>zero_time\<close> is the
  zero value of the type, January 1 of year 1.
\<close>

record Time =
  year :: int
  month :: int
  day :: int
  nanos :: int

definition zero_time :: Time where
  "zero_time = \<lparr>year = 1, month = 1, day = 1, nanos = 0\<rparr>"

text \<open>\<open>time.Date(y, m, d, hh, mm, ss, ns, time.UTC)\<close> for arguments within their ranges.\<close>

definition Date :: "int \<Rightarrow> int \<Rightarrow> int \<Rightarrow> int \<Rightarrow> int \<Rightarrow> int \<Rightarrow> int \<Rightarrow> Time" where
  "Date y m d hh mm ss ns =
     \<lparr>year = y, month = m, day = d, nanos = ((hh * 60 + mm) * 60 + ss) * 1000000000 + ns\<rparr>"

definition isLeap :: "int \<Rightarrow> bool" where
  "isLeap y = (y mod 4 = 0 \<and> (y mod 100 \<noteq> 0 \<or> y mod 400 = 0))"

definition daysIn :: "int \<Rightarrow> int \<Rightarrow> int" where
  "daysIn m y =
     (if m = 2 then (if isLeap y then 29 else 28)
      else if m = 4 \<or> m = 6 \<or> m = 9 \<or> m = 11 then 30 else 31)"

definition daysBefore :: "int \<Rightarrow> int" where
  "daysBefore m = [0, 31, 59, 90, 120, 151, 181, 212, 243, 273, 304, 334] ! nat (m - 1)"

text \<open>Nanoseconds since the zero time.\<close>

definition abs_nanos :: "Time \<Rightarrow> int" where
  "abs_nanos t =
     ((365 * (year t - 1) + (year t - 1) div 4 - (year t - 1) div 100 + (year t - 1) div 400
        + daysBefore (month t) + (if isLeap (year t) \<and> 2 < month t then 1 else 0)
        + (day t - 1)) * 86400) * 1000000000 + nanos t"

text \<open>
  \<open>t.Sub(u)\<close> is a \<open>Duration\<close>, an int64 count of nanoseconds: a difference beyond the
  type is replaced by its largest or smallest value.
\<close>

definition maxDuration :: int where
  "maxDuration = 2 ^ 63 - 1"

definition minDuration :: int where
  "minDuration = - (2 ^ 63)"

definition Sub :: "Time \<Rightarrow> Time \<Rightarrow> int" where
  "Sub t u = max minDuration (min maxDuration (abs_nanos t - abs_nanos u))"

text \<open>Go's integer division and remainder truncate towards zero.\<close>

definition quot :: "int \<Rightarrow> int \<Rightarrow> int" where
  "quot a b = (if a < 0 then - (- a div b) else a div b)"

definition rem :: "int \<Rightarrow> int \<Rightarrow> int" where
  "rem a b = a - b * quot a b"

text \<open>
  \<open>d.Seconds()\<close>: \<open>sec := d / Second; nsec := d % Second;
  return float64(sec) + float64(nsec)/1e9\<close>.
\<close>

definition Seconds :: "int \<Rightarrow> float64" where
  "Seconds d =
     fadd (float64_of_int (quot d 1000000000))
          (fdiv (float64_of_int (rem d 1000000000)) (f64 1000000000 1))"

text \<open>
  \<open>t.Format("2006-01-02")\<close>: the year in at least four digits, the month and the day in two.
\<close>

function decimal :: "int \<Rightarrow> string" where
  "decimal n = (if n < 10 then [''0123456789'' ! nat n] else decimal (n div 10) @ [''0123456789'' ! nat (n mod 10)])"
  by pat_completeness auto
termination
  by (relation "measure nat") auto

declare decimal.simps [simp del]

definition appendInt :: "int \<Rightarrow> nat \<Rightarrow> string" where
  "appendInt x width =
     (if x < 0 then ''-'' else []) @
     replicate (width - length (decimal \<bar>x\<bar>)) CHR ''0'' @ decimal \<bar>x\<bar>"

definition Format :: "Time \<Rightarrow> string" where
  "Format t = appendInt (year t) 4 @ ''-'' @ appendInt (month t) 2 @ ''-'' @ appendInt (day t) 2"

text \<open>
  \<open>time.Parse("2006-01-02", s)\<close>: four digits, a hyphen, two digits, a hyphen, two digits
  and nothing more, naming a day that exists; the result is midnight UTC of that day.
\<close>

fun digits :: "string \<Rightarrow> int \<Rightarrow> int option" where
  "digits [] n = Some n"
| "digits (c # cs) n = (case digit c of None \<Rightarrow> None | Some v \<Rightarrow> digits cs (n * 10 + v))"

fun valid_date :: "int option \<Rightarrow> int option \<Rightarrow> int option \<Rightarrow> Time option" where
  "valid_date (Some y) (Some m) (Some d) =
     (if 1 \<le> m \<and> m \<le> 12 \<and> 1 \<le> d \<and> d \<le> daysIn m y
      then Some \<lparr>year = y, month = m, day = d, nanos = 0\<rparr> else None)"
| "valid_date _ _ _ = None"

fun Parse :: "string \<Rightarrow> Time option" where
  "Parse [y1, y2, y3, y4, h1, m1, m2, h2, d1, d2] =
     (if h1 = CHR ''-'' \<and> h2 = CHR ''-''
      then valid_date (digits [y1, y2, y3, y4] 0) (digits [m1, m2] 0) (digits [d1, d2] 0)
      else None)"
| "Parse _ = None"

section \<open>The rounding utility\<close>

text \<open>\<open>roundFloat\<close> (line 127) and \<open>FloatToFixed\<close> (line 133).\<close>

definition roundFloat :: "(float64 \<Rightarrow> 64 word) \<Rightarrow> float64 \<Rightarrow> 64 word" where
  "roundFloat cv num = uint64_of cv (fadd num (Copysign (f64 1 2) num))"

definition FloatToFixed :: "(float64 \<Rightarrow> 64 word) \<Rightarrow> float64 \<Rightarrow> int \<Rightarrow> float64" where
  "FloatToFixed cv num prec =
     (let prec = (if prec < 1 then 1 else prec);
          exp = Pow10 prec
      in fdiv (float64_of_uint64 (roundFloat cv (fmul num exp))) exp)"

text \<open>The last line of \<open>FloatToFixed\<close>, for a given power of ten.\<close>

definition rescale :: "(float64 \<Rightarrow> 64 word) \<Rightarrow> float64 \<Rightarrow> float64 \<Rightarrow> float64" where
  "rescale cv num scale = fdiv (float64_of_uint64 (roundFloat cv (fmul num scale))) scale"

section \<open>The raw feed model\<close>

text \<open>
  \<open>RawExchangeRate\<close>, \<open>XRefRawData\<close> and \<open>XRefRawResponse\<close> (lines 28 to 43); the two
  fields of a raw record are named \<open>raw_Currency\<close> and \<open>raw_Rate\<close> here, apart from
  those of an \<open>ExchangeRate\<close> (line 51).
\<close>

record RawExchangeRate =
  raw_Currency :: string
  raw_Rate :: string

record XRefRawData =
  RateTime :: string
  Rates :: "RawExchangeRate list"

record XRefRawResponse =
  Data :: "XRefRawData list"

record ExchangeRate =
  Currency :: string
  Rate :: float64

type_synonym ExchangeRates = "ExchangeRate list"

definition EUCurr :: string where
  "EUCurr = ''EUR''"

definition EURate :: float64 where
  "EURate = f64 1 1"

section \<open>Errors\<close>

text \<open>
  The errors the client returns, one constructor for each place that makes one, and the
  text each carries (\<open>message\<close>). The errors of \<open>http.Get\<close>, of the XML decoder and
  of \<open>time.Parse\<close> are passed on as they come. \<open>NilPointerPanic\<close> is the run-time
  panic of reading \<open>c.XRefData.Data\<close> while \<open>c.XRefData\<close> is nil.
\<close>

datatype error =
    TransportFailed string
  | DecodeFailed string
  | TimeParseFailed string
  | DateNotFound string
  | MalformedRate string string
  | UnknownCurrency string string "string list" string
  | InvalidAmount
  | NilPointerPanic

fun Join :: "string list \<Rightarrow> string \<Rightarrow> string" where
  "Join [] sep = []"
| "Join [x] sep = x"
| "Join (x # y # ys) sep = x @ sep @ Join (y # ys) sep"

fun message :: "error \<Rightarrow> string" where
  "message (TransportFailed e) = e"
| "message (DecodeFailed e) = e"
| "message (TimeParseFailed e) = e"
| "message (DateNotFound timeKey) =
     ''Currency data for '' @ timeKey @
     '' doesn't exist. Records are only available for past 90 days, excluding present day.''"
| "message (MalformedRate c r) = ''Invalid input rate value for '' @ c @ '', '' @ r"
| "message (UnknownCurrency source target available timeKey) =
     ''Invalid currencies selected: '' @ source @ '', '' @ target @
     ''. List of available currency rates: '' @ Join available '', '' @ '' for '' @ timeKey"
| "message InvalidAmount = ''Amount of conversion currency can't be negative''"
| "message NilPointerPanic = ''runtime error: invalid memory address or nil pointer dereference''"

section \<open>The client and its surroundings\<close>

text \<open>
  What the client cannot decide itself is read from a \<open>world\<close>: the successive readings
  of \<open>time.Now()\<close>, the outcome of each successive \<open>http.Get\<close> of the feed (a transport
  error, or a body together with the document the XML decoder filled from it and the
  decoder's error, if any), and the platform's results for float conversions out of range.
\<close>

datatype response = GetFailed string | Body XRefRawResponse "string option"

record world =
  clock :: "nat \<Rightarrow> Time"
  network :: "nat \<Rightarrow> response"
  uint64_conv :: "float64 \<Rightarrow> 64 word"
  int_conv :: "float64 \<Rightarrow> int"

text \<open>
  \<open>Client\<close> (line 101): a nil \<open>XRefData\<close> is \<open>None\<close>; the two \<open>int\<close> fields hold
  64-bit values. \<open>now_calls\<close> and \<open>get_calls\<close> count the readings of the clock and the
  requests made so far, which is where the next ones are looked up in the world.
\<close>

record Client =
  XRefData :: "XRefRawResponse option"
  RefreshInterval :: int
  prec :: int
  lastFetched :: Time
  now_calls :: nat
  get_calls :: nat

text \<open>\<open>New\<close> (line 118): \<open>int(precision)\<close> and \<open>int(refreshInterval)\<close> reinterpret the
  unsigned arguments as signed.\<close>

definition New :: "64 word \<Rightarrow> 64 word \<Rightarrow> Client" where
  "New precision refreshInterval =
     \<lparr>XRefData = None, RefreshInterval = sint refreshInterval, prec = sint precision,
      lastFetched = zero_time, now_calls = 0, get_calls = 0\<rparr>"

section \<open>Rounding of rates and amounts\<close>

text \<open>\<open>Round\<close> (line 59) stores the rounded rate in the record and returns it.\<close>

definition Round :: "(float64 \<Rightarrow> 64 word) \<Rightarrow> ExchangeRate \<Rightarrow> int \<Rightarrow> ExchangeRate \<times> float64" where
  "Round cv e p = (let rounded = FloatToFixed cv (Rate e) p in (e\<lparr>Rate := rounded\<rparr>, rounded))"

text \<open>
  The method \<open>round\<close> of the client (line 163), here \<open>Client_round\<close>: the optional
  argument is the list \<open>params\<close>.
\<close>

fun Client_round :: "(float64 \<Rightarrow> 64 word) \<Rightarrow> Client \<Rightarrow> float64 \<Rightarrow> int list \<Rightarrow> float64" where
  "Client_round cv c num (p # ps) = FloatToFixed cv num p"
| "Client_round cv c num [] = FloatToFixed cv num (prec c)"

section \<open>Parsing a raw rate\<close>

text \<open>\<open>newExchangeRate\<close> (line 78): on an error the returned rate is nil.\<close>

fun rate_of :: "RawExchangeRate \<Rightarrow> NumError + float64 \<Rightarrow> error + ExchangeRate" where
  "rate_of r (Inl err) = Inl (MalformedRate (raw_Currency r) (raw_Rate r))"
| "rate_of r (Inr v) = Inr \<lparr>Currency = raw_Currency r, Rate = v\<rparr>"

definition newExchangeRate :: "RawExchangeRate \<Rightarrow> error + ExchangeRate" where
  "newExchangeRate r = rate_of r (ParseFloat (raw_Rate r) 32)"

section \<open>Fetching the feed\<close>

text \<open>
  \<open>fetchXML\<close> (line 143). \<open>elapsed\<close> is \<open>int(time.Now().Sub(c.lastFetched).Seconds())\<close>
  and \<open>fresh\<close> the condition of line 146; \<open>tick\<close> records a reading of the clock.
  \<open>receive\<close> is the rest of the function, from the result of \<open>http.Get\<close> on: a transport
  error returns at once (line 151); otherwise the decoded document and the time are
  stored (lines 156, 157) and the decoder's error is returned (line 158).
\<close>

definition elapsed :: "world \<Rightarrow> Time \<Rightarrow> Time \<Rightarrow> int" where
  "elapsed w now fetched = int_of (int_conv w) (Seconds (Sub now fetched))"

definition fresh :: "world \<Rightarrow> Client \<Rightarrow> bool" where
  "fresh w c =
     (elapsed w (clock w (now_calls c)) (lastFetched c) < RefreshInterval c \<and> 0 < RefreshInterval c)"

definition tick :: "Client \<Rightarrow> Client" where
  "tick c = c\<lparr>now_calls := Suc (now_calls c)\<rparr>"

fun receive :: "world \<Rightarrow> Client \<Rightarrow> response \<Rightarrow> Client \<times> error option" where
  "receive w c (GetFailed e) = (c\<lparr>get_calls := Suc (get_calls c)\<rparr>, Some (TransportFailed e))"
| "receive w c (Body data err) =
     (tick (c\<lparr>get_calls := Suc (get_calls c), XRefData := Some data,
              lastFetched := clock w (now_calls c)\<rparr>),
      map_option DecodeFailed err)"

definition fetchXML :: "world \<Rightarrow> Client \<Rightarrow> Client \<times> error option" where
  "fetchXML w c =
     (if fresh w c then (tick c, None) else receive w (tick c) (network w (get_calls c)))"

section \<open>Day lookup\<close>

text \<open>
  \<open>Fetch\<close> (line 233). \<open>lookup_day\<close> is the loop of lines 240 to 245, which stops at the
  first day with the key; \<open>parse_rates\<close> the loop of lines 251 to 260, which returns the
  rates gathered so far with the first error. A result is the client afterwards, the
  returned rates and the returned error, \<open>None\<close> for nil.
\<close>

fun lookup_day :: "string \<Rightarrow> XRefRawData list \<Rightarrow> RawExchangeRate list" where
  "lookup_day timeKey [] = []"
| "lookup_day timeKey (dayD # rest) =
     (if RateTime dayD = timeKey then Rates dayD else lookup_day timeKey rest)"

fun append_rate ::
  "(float64 \<Rightarrow> 64 word) \<Rightarrow> int \<Rightarrow> ExchangeRates \<Rightarrow> error + ExchangeRate \<Rightarrow> ExchangeRates \<times> error option" where
  "append_rate cv p rates (Inl err) = (rates, Some err)"
| "append_rate cv p rates (Inr val) = (rates @ [fst (Round cv val p)], None)"

fun parse_rates ::
  "(float64 \<Rightarrow> 64 word) \<Rightarrow> int \<Rightarrow> RawExchangeRate list \<Rightarrow> ExchangeRates \<Rightarrow> ExchangeRates \<times> error option" where
  "parse_rates cv p [] rates = (rates, None)"
| "parse_rates cv p (rec # rest) rates =
     (case append_rate cv p rates (newExchangeRate rec) of
        (rates', Some err) \<Rightarrow> (rates', Some err)
      | (rates', None) \<Rightarrow> parse_rates cv p rest rates')"

fun day_rates ::
  "(float64 \<Rightarrow> 64 word) \<Rightarrow> int \<Rightarrow> string \<Rightarrow> RawExchangeRate list \<Rightarrow> ExchangeRates \<times> error option" where
  "day_rates cv p timeKey [] = ([], Some (DateNotFound timeKey))"
| "day_rates cv p timeKey dayData = parse_rates cv p dayData []"

fun lookup ::
  "world \<Rightarrow> string \<Rightarrow> Client \<times> error option \<Rightarrow> Client \<times> ExchangeRates \<times> error option" where
  "lookup w timeKey (c, Some err) = (c, [], Some err)"
| "lookup w timeKey (c, None) =
     (case XRefData c of
        None \<Rightarrow> (c, [], Some NilPointerPanic)
      | Some doc \<Rightarrow> (c, day_rates (uint64_conv w) (prec c) timeKey (lookup_day timeKey (Data doc))))"

definition Fetch :: "world \<Rightarrow> Time \<Rightarrow> Client \<Rightarrow> Client \<times> ExchangeRates \<times> error option" where
  "Fetch w t c = lookup w (Format t) (fetchXML w c)"

section \<open>Conversion\<close>

text \<open>\<open>computeExchangeValue\<close> (line 175); the zero value of \<open>result\<close> is \<open>+0\<close>.\<close>

definition computeExchangeValue ::
  "(float64 \<Rightarrow> 64 word) \<Rightarrow> Client \<Rightarrow> float64 \<Rightarrow> ExchangeRate \<Rightarrow> ExchangeRate \<Rightarrow> float64 \<times> error option" where
  "computeExchangeValue cv c amount inp to =
     (if flt amount (Zero False) then (Zero False, Some InvalidAmount)
      else if Currency inp = Currency to then (Client_round cv c amount [], None)
      else (Client_round cv c
              (fmul (Client_round cv c amount [2])
                    (Client_round cv c (fdiv (Rate to) (Rate inp)) [])) [],
            None))"

text \<open>
  \<open>Convert\<close> (line 192). \<open>scan_legs\<close> is the loop of lines 199 to 206, in which a later
  record with the code replaces an earlier one; \<open>resolve\<close> adds the record for the euro
  (lines 210 to 221); \<open>convert_legs\<close> is the end of the function (lines 222 to 229).
\<close>

fun scan_legs ::
  "string \<Rightarrow> string \<Rightarrow> ExchangeRates \<Rightarrow> ExchangeRate option \<times> ExchangeRate option
     \<Rightarrow> ExchangeRate option \<times> ExchangeRate option" where
  "scan_legs source target [] legs = legs"
| "scan_legs source target (rec # rest) (inp, to) =
     scan_legs source target rest
       (if source = Currency rec then Some rec else inp,
        if target = Currency rec then Some rec else to)"

fun with_euro ::
  "string \<Rightarrow> string \<Rightarrow> ExchangeRate option \<times> ExchangeRate option
     \<Rightarrow> ExchangeRate option \<times> ExchangeRate option" where
  "with_euro source target (inp, to) =
     (if source = EUCurr \<or> target = EUCurr then
        (if source = EUCurr then Some \<lparr>Currency = EUCurr, Rate = EURate\<rparr> else inp,
         if target = EUCurr then Some \<lparr>Currency = EUCurr, Rate = EURate\<rparr> else to)
      else (inp, to))"

definition resolve ::
  "string \<Rightarrow> string \<Rightarrow> ExchangeRates \<Rightarrow> ExchangeRate option \<times> ExchangeRate option" where
  "resolve source target dayData =
     with_euro source target (scan_legs source target dayData (None, None))"

fun convert_legs ::
  "world \<Rightarrow> Client \<Rightarrow> float64 \<Rightarrow> string \<Rightarrow> string \<Rightarrow> Time \<Rightarrow> ExchangeRates
     \<Rightarrow> ExchangeRate option \<times> ExchangeRate option \<Rightarrow> float64 \<times> error option" where
  "convert_legs w c amount source target t dayData (Some inp, Some to) =
     computeExchangeValue (uint64_conv w) c amount inp to"
| "convert_legs w c amount source target t dayData legs =
     (Zero False, Some (UnknownCurrency source target (map Currency dayData) (Format t)))"

fun convert_day ::
  "world \<Rightarrow> float64 \<Rightarrow> string \<Rightarrow> string \<Rightarrow> Time \<Rightarrow> Client \<times> ExchangeRates \<times> error option
     \<Rightarrow> Client \<times> float64 \<times> error option" where
  "convert_day w amount source target t (c, dayData, Some err) = (c, Zero False, Some err)"
| "convert_day w amount source target t (c, dayData, None) =
     (c, convert_legs w c amount source target t dayData (resolve source target dayData))"

definition Convert ::
  "world \<Rightarrow> float64 \<Rightarrow> string \<Rightarrow> string \<Rightarrow> Time \<Rightarrow> Client \<Rightarrow> Client \<times> float64 \<times> error option" where
  "Convert w amount source target t c = convert_day w amount source target t (Fetch w t c)"

section \<open>Full history\<close>

text \<open>
  \<open>FetchAll\<close> (line 265). \<open>fetch_days\<close> is the loop of lines 273 to 283 over the days
  the document held when the loop began; every \<open>return\<close> in it returns the map as filled
  so far, with the error. A nil map is the empty map.
\<close>

fun fetch_days ::
  "world \<Rightarrow> XRefRawData list \<Rightarrow> Client \<Rightarrow> (Time \<rightharpoonup> ExchangeRates)
     \<Rightarrow> Client \<times> (Time \<rightharpoonup> ExchangeRates) \<times> error option" where
  "fetch_days w [] c rates = (c, rates, None)"
| "fetch_days w (dayD # rest) c rates =
     (case Parse (RateTime dayD) of
        None \<Rightarrow> (c, rates, Some (TimeParseFailed (RateTime dayD)))
      | Some t \<Rightarrow>
          (case Fetch w t c of
             (c', d, Some err) \<Rightarrow> (c', rates, Some err)
           | (c', d, None) \<Rightarrow> fetch_days w rest c' (rates(t \<mapsto> d))))"

fun all_days ::
  "world \<Rightarrow> Client \<times> error option \<Rightarrow> Client \<times> (Time \<rightharpoonup> ExchangeRates) \<times> error option" where
  "all_days w (c, Some err) = (c, Map.empty, Some err)"
| "all_days w (c, None) =
     (case XRefData c of
        None \<Rightarrow> (c, Map.empty, Some NilPointerPanic)
      | Some doc \<Rightarrow> fetch_days w (Data doc) c Map.empty)"

definition FetchAll :: "world \<Rightarrow> Client \<Rightarrow> Client \<times> (Time \<rightharpoonup> ExchangeRates) \<times> error option" where
  "FetchAll w c = all_days w (fetchXML w c)"

section \<open>Reference rounding and a sample feed\<close>

text \<open>
  The rounding as the specification words it, for comparison with \<open>FloatToFixed\<close>:
  \<open>half_away\<close> is the integer nearest to a finite float64, a tie going away from zero
  (computed exactly), and \<open>toFixed_spec\<close> rounds the value scaled by the power of ten and
  scales it down again, with the precision raised to at least one.
\<close>

fun half_away :: "float64 \<Rightarrow> int" where
  "half_away (Finite m e) =
     (if 0 \<le> e then shl m e
      else if m < 0 then - ((- m + shl 1 (- e - 1)) div shl 1 (- e))
      else (m + shl 1 (- e - 1)) div shl 1 (- e))"
| "half_away x = 0"

definition toFixed_spec :: "float64 \<Rightarrow> int \<Rightarrow> float64" where
  "toFixed_spec x p =
     fdiv (float64_of_int (half_away (fmul x (Pow10 (max 1 p))))) (Pow10 (max 1 p))"

text \<open>
  A feed with the day of the specification's scenario and a day without rates, served
  without errors at 10:00 on November 12, 2016, by a platform whose conversions out of
  range give 0; the same feed's rates as \<open>Fetch\<close> returns them at precision 4; and a
  world in which the decoder fails, leaving an empty document.
\<close>

definition no_conv64 :: "float64 \<Rightarrow> 64 word" where
  "no_conv64 x = 0"

definition feed :: XRefRawResponse where
  "feed = \<lparr>Data = [
     \<lparr>RateTime = ''2016-11-11'', Rates = [
        \<lparr>raw_Currency = ''USD'', raw_Rate = ''1.002''\<rparr>,
        \<lparr>raw_Currency = ''CHF'', raw_Rate = ''1.03''\<rparr>]\<rparr>,
     \<lparr>RateTime = ''2016-11-08'', Rates = []\<rparr>]\<rparr>"

definition served :: world where
  "served = \<lparr>clock = (\<lambda>n. Date 2016 11 12 10 0 0 0), network = (\<lambda>n. Body feed None),
              uint64_conv = no_conv64, int_conv = (\<lambda>x. 0)\<rparr>"

definition garbled :: world where
  "garbled = \<lparr>clock = (\<lambda>n. Date 2016 11 12 10 0 0 0),
               network = (\<lambda>n. Body \<lparr>Data = []\<rparr> (Some ''unexpected EOF'')),
               uint64_conv = no_conv64, int_conv = (\<lambda>x. 0)\<rparr>"

definition day_11 :: ExchangeRates where
  "day_11 = [\<lparr>Currency = ''USD'', Rate = f64 1002 1000\<rparr>,
             \<lparr>Currency = ''CHF'', Rate = f64 103 100\<rparr>]"

text \<open>A client after a fetch of the feed, and one that holds it since 9:59:30.\<close>

definition fetched :: "Client \<Rightarrow> Client" where
  "fetched c = c\<lparr>XRefData := Some feed, lastFetched := Date 2016 11 12 10 0 0 0,
                 now_calls := Suc (Suc (now_calls c)), get_calls := Suc (get_calls c)\<rparr>"

definition cached :: "int \<Rightarrow> Client" where
  "cached ttl = \<lparr>XRefData = Some feed, RefreshInterval = ttl, prec = 4,
                 lastFetched = Date 2016 11 12 9 59 30 0, now_calls = 0, get_calls = 0\<rparr>"

section \<open>Evaluation\<close>

text \<open>
  Closed terms are evaluated by rewriting with the definitions. \<open>FloatToFixed\<close> is
  evaluated through \<open>rescale\<close>, so that the power of ten is computed once.
\<close>

lemmas float_eval = blen.simps shl_def ilog2_def round_even_def round_ratio_def quantum_def
  mantissa_def pack_def round_at_def f64_def round_dyadic_def float64_of_int_def binary64_def
  binary32_def Copysign_def Pow10_def uint64_of_def int_of_def float64_of_uint64_def flt_def fle_def

lemmas parse_eval = digit_def lower_def equalIgnoreCase_def exponent_def readFloat_def
  format_of_def ParseFloat_def newExchangeRate_def

lemmas time_eval = zero_time_def Date_def isLeap_def daysIn_def daysBefore_def abs_nanos_def
  maxDuration_def minDuration_def Sub_def quot_def rem_def Seconds_def decimal.simps appendInt_def
  Format_def

lemma FloatToFixed_rescale:
  "FloatToFixed cv num p = rescale cv num (Pow10 (if p < 1 then 1 else p))"
  by (simp add: FloatToFixed_def rescale_def Let_def)

lemma Round_fst: "fst (Round cv e p) = e\<lparr>Rate := FloatToFixed cv (Rate e) p\<rparr>"
  by (simp add: Round_def Let_def)

lemmas round_eval = FloatToFixed_rescale rescale_def roundFloat_def Round_fst

section \<open>The float64 model rounds to nearest\<close>

text \<open>
  \<open>round_ratio\<close> returns a number of the format (a mantissa within \<open>mant_bits\<close>
  bits, an exponent within the format's range) that is at most half a unit of its last
  place away from the exact ratio, and returns a ratio that is a number of the format
  unchanged. The product, sum and quotient of two finite float64 are therefore within
  half a unit of the last place of the exact product, sum and quotient.
\<close>

lemma div_bounds:
  fixes n b :: int
  assumes "0 < b"
  shows "b * (n div b) \<le> n" and "n < b * (n div b) + b"
proof -
  have "n = b * (n div b) + n mod b" by simp
  moreover have "0 \<le> n mod b" "n mod b < b" using assms by simp_all
  ultimately show "b * (n div b) \<le> n" and "n < b * (n div b) + b" by linarith+
qed

lemma blen_bounds:
  "0 < n \<Longrightarrow> 0 < blen n \<and> 2 ^ nat (blen n) \<le> 2 * n \<and> n < 2 ^ nat (blen n)"
proof (induction n rule: blen.induct)
  case (1 n)
  show ?case
  proof (cases "65536 \<le> n")
    case True
    then have q: "0 < n div 65536" by simp
    from "1.IH"(1) True "1.prems" q
    have ih: "0 < blen (n div 65536)" "2 ^ nat (blen (n div 65536)) \<le> 2 * (n div 65536)"
      "n div 65536 < 2 ^ nat (blen (n div 65536))"
      by simp_all
    have b: "blen n = 16 + blen (n div 65536)"
      using True "1.prems" by (simp add: blen.simps [of n])
    have e: "(2::int) ^ nat (16 + blen (n div 65536)) = 65536 * 2 ^ nat (blen (n div 65536))"
      using ih(1) by (simp add: nat_add_distrib power_add)
    show ?thesis
      using ih b e div_bounds [of 65536 n] by auto
  next
    case False
    note big = this
    show ?thesis
    proof (cases "16 \<le> n")
      case True
      then have q: "0 < n div 16" by simp
      from "1.IH"(2) True big "1.prems" q
      have ih: "0 < blen (n div 16)" "2 ^ nat (blen (n div 16)) \<le> 2 * (n div 16)"
        "n div 16 < 2 ^ nat (blen (n div 16))"
        by simp_all
      have b: "blen n = 4 + blen (n div 16)"
        using True big "1.prems" by (simp add: blen.simps [of n])
      have e: "(2::int) ^ nat (4 + blen (n div 16)) = 16 * 2 ^ nat (blen (n div 16))"
        using ih(1) by (simp add: nat_add_distrib power_add)
      show ?thesis
        using ih b e div_bounds [of 16 n] by auto
    next
      case False
      have b: "blen n = 1 + blen (n div 2)"
        using False big "1.prems" by (simp add: blen.simps [of n])
      show ?thesis
      proof (cases "n = 1")
        case True
        then show ?thesis by (simp add: blen.simps [of 1] blen.simps [of 0])
      next
        case False
        with "1.prems" have q: "0 < n div 2" by simp
        from "1.IH"(3) \<open>\<not> 16 \<le> n\<close> big "1.prems" q
        have ih: "0 < blen (n div 2)" "2 ^ nat (blen (n div 2)) \<le> 2 * (n div 2)"
          "n div 2 < 2 ^ nat (blen (n div 2))"
          by simp_all
        have e: "(2::int) ^ nat (1 + blen (n div 2)) = 2 * 2 ^ nat (blen (n div 2))"
          using ih(1) by (simp add: nat_add_distrib power_add)
        show ?thesis
          using ih b e div_bounds [of 2 n] by auto
      qed
    qed
  qed
qed


lemma powi_nat: "0 \<le> k \<Longrightarrow> (2::real) powi k = 2 ^ nat k"
  by (simp add: power_int_def)

lemma powi_neg: "k < 0 \<Longrightarrow> (2::real) powi k = 1 / 2 ^ nat (- k)"
  by (simp add: power_int_def field_simps)

lemma powi_pos: "0 < (2::real) powi k"
  by simp

lemma powi_Suc: "(2::real) powi (k + 1) = 2 * 2 powi k"
  by (simp add: power_int_add)

lemma blen_real:
  assumes "0 < n"
  shows "2 powi (blen n) \<le> 2 * real_of_int n" and "real_of_int n < 2 powi (blen n)"
proof -
  from blen_bounds [OF assms]
  have b: "0 < blen n" "2 ^ nat (blen n) \<le> 2 * n" "n < 2 ^ nat (blen n)"
    by simp_all
  have p: "(2::real) powi (blen n) = real_of_int (2 ^ nat (blen n))"
    using b(1) by (simp add: powi_nat)
  show "2 powi (blen n) \<le> 2 * real_of_int n"
    unfolding p using b(2) by (metis of_int_le_iff of_int_mult of_int_numeral)
  show "real_of_int n < 2 powi (blen n)"
    unfolding p using b(3) by (simp only: of_int_less_iff)
qed

lemma scaled_le_iff:
  "(if 0 \<le> k then shl d k \<le> a else d \<le> shl a (- k)) \<longleftrightarrow>
   2 powi k * real_of_int d \<le> real_of_int a"
proof (cases "0 \<le> k")
  case True
  have "real_of_int (shl d k) = 2 powi k * real_of_int d"
    using True by (simp add: shl_def powi_nat)
  then show ?thesis
    using True by (metis of_int_le_iff)
next
  case False
  then have k: "k < 0" by simp
  have "real_of_int (shl a (- k)) = real_of_int a * 2 ^ nat (- k)"
    by (simp add: shl_def)
  then have "d \<le> shl a (- k) \<longleftrightarrow> real_of_int d \<le> real_of_int a * 2 ^ nat (- k)"
    by (metis of_int_le_iff)
  also have "\<dots> \<longleftrightarrow> 2 powi k * real_of_int d \<le> real_of_int a"
    by (simp add: powi_neg [OF k] field_simps)
  finally show ?thesis using False by simp
qed

lemma ilog2_bounds:
  assumes "0 < a" and "0 < d"
  shows "2 powi (ilog2 a d) * real_of_int d \<le> real_of_int a"
    and "real_of_int a < 2 powi (ilog2 a d + 1) * real_of_int d"
proof -
  define k where "k = blen a - blen d"
  have A: "2 powi (blen a) \<le> 2 * real_of_int a" "real_of_int a < 2 powi (blen a)"
    using blen_real [OF assms(1)] by simp_all
  have D: "2 powi (blen d) \<le> 2 * real_of_int d" "real_of_int d < 2 powi (blen d)"
    using blen_real [OF assms(2)] by simp_all
  have s: "(2::real) powi (blen a) = 2 powi k * 2 powi (blen d)"
    by (simp add: k_def power_int_diff)
  have i: "ilog2 a d = (if 2 powi k * real_of_int d \<le> real_of_int a then k else k - 1)"
    by (simp add: ilog2_def Let_def k_def scaled_le_iff)
  have up: "real_of_int a < 2 powi (k + 1) * real_of_int d"
  proof -
    have "real_of_int a < 2 powi k * 2 powi (blen d)"
      using A(2) s by simp
    also have "\<dots> \<le> 2 powi k * (2 * real_of_int d)"
      using D(1) by (simp add: mult_left_mono)
    finally show ?thesis by (simp add: powi_Suc)
  qed
  have lo: "2 powi (k - 1) * real_of_int d \<le> real_of_int a"
  proof -
    have h: "(2::real) powi (k - 1) = 2 powi k / 2"
      by (simp add: power_int_diff)
    have "2 powi k * real_of_int d \<le> 2 powi k * 2 powi (blen d)"
      using D(2) by (simp add: mult_left_mono)
    also have "\<dots> \<le> 2 * real_of_int a"
      using A(1) s by simp
    finally show ?thesis by (simp add: h)
  qed
  show "2 powi (ilog2 a d) * real_of_int d \<le> real_of_int a"
    using i lo by (simp split: if_splits)
  show "real_of_int a < 2 powi (ilog2 a d + 1) * real_of_int d"
    using i up by (auto split: if_splits)
qed


lemma round_even_bounds:
  assumes "0 < b"
  shows "\<bar>real_of_int (round_even a b) - real_of_int a / real_of_int b\<bar> \<le> 1 / 2"
proof -
  define q where "q = a div b"
  define r where "r = a mod b"
  have r: "0 \<le> r" "r < b"
    using assms by (simp_all add: r_def)
  have "a = b * q + r"
    by (simp add: q_def r_def)
  then have "real_of_int a = real_of_int b * real_of_int q + real_of_int r"
    by (metis of_int_add of_int_mult)
  then have d: "real_of_int a / real_of_int b = real_of_int q + real_of_int r / real_of_int b"
    using assms by (simp add: field_simps)
  have v: "round_even a b =
      (if 2 * r < b then q else if b < 2 * r then q + 1 else if even q then q else q + 1)"
    by (simp add: round_even_def Let_def q_def r_def)
  have h: "2 * r < b \<longleftrightarrow> real_of_int r / real_of_int b < 1 / 2"
    "b < 2 * r \<longleftrightarrow> 1 / 2 < real_of_int r / real_of_int b"
    using assms by (simp_all add: field_simps) linarith+
  have z: "0 \<le> real_of_int r / real_of_int b" "real_of_int r / real_of_int b < 1"
    using r assms by simp_all
  show ?thesis
    unfolding v d using h z by (auto simp: abs_if)
qed

lemma round_even_nonneg: "0 \<le> a \<Longrightarrow> 0 < b \<Longrightarrow> 0 \<le> round_even a b"
  by (simp add: round_even_def Let_def pos_imp_zdiv_nonneg_iff)

lemma mantissa_bounds:
  assumes "0 < a" and "0 < d"
  shows "\<bar>real_of_int (mantissa a d e) * 2 powi e - real_of_int a / real_of_int d\<bar> \<le> 2 powi e / 2"
    and "0 \<le> mantissa a d e"
proof -
  have "\<bar>real_of_int (mantissa a d e) - real_of_int a / (real_of_int d * 2 powi e)\<bar> \<le> 1 / 2"
  proof (cases "0 \<le> e")
    case True
    have p: "0 < shl d e"
      using assms(2) by (simp add: shl_def)
    have "real_of_int (shl d e) = real_of_int d * 2 powi e"
      using True by (simp add: shl_def powi_nat)
    then show ?thesis
      using round_even_bounds [OF p, of a] True by (simp add: mantissa_def)
  next
    case False
    then have k: "e < 0" by simp
    have "real_of_int (shl a (- e)) / real_of_int d = real_of_int a / (real_of_int d * 2 powi e)"
      by (simp add: shl_def powi_neg [OF k])
    then show ?thesis
      using round_even_bounds [OF assms(2), of "shl a (- e)"] False by (simp add: mantissa_def)
  qed
  then have "\<bar>real_of_int (mantissa a d e) - real_of_int a / (real_of_int d * 2 powi e)\<bar> * 2 powi e
      \<le> 1 / 2 * 2 powi e"
    by (rule mult_right_mono) simp
  moreover have "\<bar>real_of_int (mantissa a d e) - real_of_int a / (real_of_int d * 2 powi e)\<bar> * 2 powi e
      = \<bar>real_of_int (mantissa a d e) * 2 powi e - real_of_int a / real_of_int d\<bar>"
  proof -
    have "\<bar>real_of_int (mantissa a d e) - real_of_int a / (real_of_int d * 2 powi e)\<bar> * 2 powi e
        = \<bar>(real_of_int (mantissa a d e) - real_of_int a / (real_of_int d * 2 powi e)) * 2 powi e\<bar>"
      by (simp add: abs_mult)
    also have "(real_of_int (mantissa a d e) - real_of_int a / (real_of_int d * 2 powi e)) * 2 powi e
        = real_of_int (mantissa a d e) * 2 powi e - real_of_int a / real_of_int d"
      by (simp add: field_simps)
    finally show ?thesis .
  qed
  ultimately show "\<bar>real_of_int (mantissa a d e) * 2 powi e - real_of_int a / real_of_int d\<bar> \<le> 2 powi e / 2"
    by simp
  show "0 \<le> mantissa a d e"
    using assms by (simp add: mantissa_def round_even_nonneg shl_def)
qed


lemma mantissa_le:
  assumes "0 < a" and "0 < d" and "0 < mant_bits fmt"
  shows "mantissa a d (quantum fmt a d) \<le> 2 ^ mant_bits fmt"
proof -
  define e where "e = quantum fmt a d"
  define p where "p = int (mant_bits fmt)"
  have "ilog2 a d - (p - 1) \<le> e"
    by (simp add: e_def quantum_def p_def)
  then have k: "ilog2 a d + 1 \<le> e + p"
    by simp
  have "real_of_int a < 2 powi (ilog2 a d + 1) * real_of_int d"
    using assms(1,2) by (rule ilog2_bounds)
  also have "\<dots> \<le> 2 powi (e + p) * real_of_int d"
    using k assms(2) by (simp add: mult_right_mono power_int_increasing)
  finally have "real_of_int a / real_of_int d < 2 powi (e + p)"
    using assms(2) by (simp add: field_simps)
  moreover have "real_of_int (mantissa a d e) * 2 powi e \<le> real_of_int a / real_of_int d + 2 powi e / 2"
    using mantissa_bounds(1) [OF assms(1,2), of e] by linarith
  ultimately have "real_of_int (mantissa a d e) * 2 powi e < 2 powi (e + p) + 2 powi e / 2"
    by simp
  then have "real_of_int (mantissa a d e) * 2 powi e < (2 powi p + 1 / 2) * 2 powi e"
    by (simp add: power_int_add field_simps)
  then have "real_of_int (mantissa a d e) < 2 powi p + 1 / 2"
    by (simp add: mult_less_cancel_right)
  then have "real_of_int (mantissa a d e) < real_of_int (2 ^ mant_bits fmt) + 1 / 2"
    by (simp add: p_def powi_nat)
  then have "mantissa a d e \<le> 2 ^ mant_bits fmt"
    by linarith
  then show ?thesis by (simp add: e_def)
qed

theorem round_ratio_nearest:
  assumes "0 < d" and "0 < mant_bits fmt" and "round_ratio fmt n d = Finite m x"
  shows "m \<noteq> 0" and "\<bar>m\<bar> < 2 ^ mant_bits fmt"
    and "min_exp fmt \<le> x" and "x \<le> max_exp fmt - (int (mant_bits fmt) - 1)"
    and "\<bar>real_of_int m * 2 powi x - real_of_int n / real_of_int d\<bar> \<le> 2 powi x / 2"
proof -
  define a where "a = \<bar>n\<bar>"
  define e where "e = quantum fmt a d"
  define M where "M = mantissa a d e"
  define p where "p = int (mant_bits fmt)"
  from assms(3) have n: "n \<noteq> 0"
    by (auto simp: round_ratio_def)
  then have a: "0 < a"
    by (simp add: a_def)
  have pk: "pack fmt (n < 0) M e = Finite m x"
    using assms(3) n by (simp add: round_ratio_def round_at_def a_def e_def M_def)
  have M0: "0 \<le> M"
    unfolding M_def using a assms(1) by (rule mantissa_bounds(2))
  have Mle: "M \<le> 2 ^ mant_bits fmt"
    unfolding M_def e_def using a assms(1,2) by (rule mantissa_le)
  have err: "\<bar>real_of_int M * 2 powi e - real_of_int a / real_of_int d\<bar> \<le> 2 powi e / 2"
    unfolding M_def using a assms(1) by (rule mantissa_bounds(1))
  have emin: "min_exp fmt \<le> e"
    by (simp add: e_def quantum_def)
  have s1: "shl 1 (int (mant_bits fmt)) = 2 ^ mant_bits fmt"
    by (simp add: shl_def)
  have s2: "shl 1 (int (mant_bits fmt) - 1) = 2 ^ (mant_bits fmt - 1)"
    using assms(2) by (simp add: shl_def nat_diff_distrib')
  have sg: "real_of_int n / real_of_int d = (if n < 0 then - (real_of_int a / real_of_int d)
      else real_of_int a / real_of_int d)"
    by (simp add: a_def)
  have half: "(2::real) ^ (mant_bits fmt - 1) * 2 powi (e + 1) = 2 ^ mant_bits fmt * 2 powi e"
  proof -
    have "(2::real) ^ mant_bits fmt = 2 * 2 ^ (mant_bits fmt - 1)"
      using assms(2) by (cases "mant_bits fmt") simp_all
    then show ?thesis by (simp add: powi_Suc)
  qed
  have mono: "(2::real) powi e / 2 \<le> 2 powi (e + 1) / 2"
    by (simp add: powi_Suc)
  show "m \<noteq> 0" and "\<bar>m\<bar> < 2 ^ mant_bits fmt"
    and "min_exp fmt \<le> x" and "x \<le> max_exp fmt - (int (mant_bits fmt) - 1)"
    and "\<bar>real_of_int m * 2 powi x - real_of_int n / real_of_int d\<bar> \<le> 2 powi x / 2"
  proof -
    consider (top) "M = 2 ^ mant_bits fmt" | (mid) "M \<noteq> 0" "M < 2 ^ mant_bits fmt" | (zero) "M = 0"
      using Mle by fastforce
    then have "m \<noteq> 0 \<and> \<bar>m\<bar> < 2 ^ mant_bits fmt \<and> min_exp fmt \<le> x \<and>
        x \<le> max_exp fmt - (int (mant_bits fmt) - 1) \<and>
        \<bar>real_of_int m * 2 powi x - real_of_int n / real_of_int d\<bar> \<le> 2 powi x / 2"
    proof cases
      case top
      with pk have mx: "m = (if n < 0 then - (2 ^ (mant_bits fmt - 1)) else 2 ^ (mant_bits fmt - 1))"
        "x = e + 1" "e \<le> max_exp fmt - int (mant_bits fmt)"
        by (auto simp: pack_def s1 s2 split: if_splits)
      have nz: "m \<noteq> 0"
        using mx(1) by simp
      have "\<bar>m\<bar> = 2 ^ (mant_bits fmt - 1)"
        using mx(1) by simp
      moreover have "(2::int) ^ (mant_bits fmt - 1) < 2 ^ mant_bits fmt"
        using assms(2) by simp
      ultimately have b: "\<bar>m\<bar> < 2 ^ mant_bits fmt"
        by simp
      have v: "real_of_int m * 2 powi x =
          (if n < 0 then - (real_of_int M * 2 powi e) else real_of_int M * 2 powi e)"
        using mx top half by simp
      have "\<bar>real_of_int m * 2 powi x - real_of_int n / real_of_int d\<bar> \<le> 2 powi e / 2"
        unfolding v sg using err by (simp add: abs_minus_commute)
      with mono mx(2,3) b emin nz show ?thesis by simp
    next
      case mid
      with pk have mx: "m = (if n < 0 then - M else M)" "x = e"
        "e \<le> max_exp fmt - (int (mant_bits fmt) - 1)"
        by (auto simp: pack_def s1 split: if_splits)
      have nz: "m \<noteq> 0"
        using mx(1) mid(1) by simp
      have b: "\<bar>m\<bar> < 2 ^ mant_bits fmt"
        using mx(1) mid(2) M0 by simp
      have v: "real_of_int m * 2 powi x =
          (if n < 0 then - (real_of_int M * 2 powi e) else real_of_int M * 2 powi e)"
        using mx by simp
      have "\<bar>real_of_int m * 2 powi x - real_of_int n / real_of_int d\<bar> \<le> 2 powi e / 2"
        unfolding v sg using err by (simp add: abs_minus_commute)
      with mx(2,3) b emin nz show ?thesis by simp
    next
      case zero
      with pk show ?thesis by (simp add: pack_def)
    qed
    then show "m \<noteq> 0" and "\<bar>m\<bar> < 2 ^ mant_bits fmt"
      and "min_exp fmt \<le> x" and "x \<le> max_exp fmt - (int (mant_bits fmt) - 1)"
      and "\<bar>real_of_int m * 2 powi x - real_of_int n / real_of_int d\<bar> \<le> 2 powi x / 2"
      by simp_all
  qed
qed


lemma round_even_exact:
  assumes "0 < b" and "a = q * b"
  shows "round_even a b = q"
  using assms by (simp add: round_even_def Let_def)

lemma powi_int: "0 \<le> k \<Longrightarrow> (2::real) powi k = real_of_int (2 ^ nat k)"
  by (simp add: powi_nat)

lemma powi_less_imp_less: "(2::real) powi m < 2 powi n \<Longrightarrow> m < n"
proof (rule ccontr)
  assume l: "(2::real) powi m < 2 powi n" and "\<not> m < n"
  then have "n \<le> m" by simp
  then have "(2::real) powi n \<le> 2 powi m"
    by (rule power_int_increasing) simp
  with l show False by simp
qed

text \<open>A ratio that is a number of the format is rounded to itself.\<close>

theorem round_ratio_exact:
  assumes d: "0 < d" and p: "0 < mant_bits fmt"
    and v: "real_of_int n / real_of_int d = real_of_int M * 2 powi E"
    and M: "M \<noteq> 0" "\<bar>M\<bar> < 2 ^ mant_bits fmt"
    and E: "min_exp fmt \<le> E" "E + int (mant_bits fmt) \<le> max_exp fmt + 1"
  shows "\<exists>m x. round_ratio fmt n d = Finite m x \<and>
           real_of_int m * 2 powi x = real_of_int M * 2 powi E"
proof -
  define a where "a = \<bar>n\<bar>"
  define e where "e = quantum fmt a d"
  define A where "A = \<bar>M\<bar>"
  have n: "n \<noteq> 0"
    using v M(1) d by auto
  then have a: "0 < a"
    by (simp add: a_def)
  have A: "0 < A" "A < 2 ^ mant_bits fmt"
    using M by (simp_all add: A_def)
  have va: "real_of_int a / real_of_int d = real_of_int A * 2 powi E"
  proof -
    have "real_of_int a / real_of_int d = \<bar>real_of_int n / real_of_int d\<bar>"
      using d by (simp add: a_def)
    also have "\<dots> = \<bar>real_of_int M * 2 powi E\<bar>"
      by (simp only: v)
    also have "\<dots> = real_of_int A * 2 powi E"
      by (simp add: abs_mult A_def)
    finally show ?thesis .
  qed
  have sgn: "n < 0 \<longleftrightarrow> M < 0"
  proof -
    have "real_of_int n / real_of_int d < 0 \<longleftrightarrow> real_of_int M * 2 powi E < 0"
      by (simp only: v)
    moreover have "\<not> (2::real) powi E < 0"
      using powi_pos [of E] by linarith
    ultimately show ?thesis
      using d by (simp add: divide_less_0_iff mult_less_0_iff)
  qed
  have eE: "e \<le> E"
  proof -
    have "2 powi (ilog2 a d) * real_of_int d \<le> real_of_int a"
      using a d by (rule ilog2_bounds)
    then have "2 powi (ilog2 a d) \<le> real_of_int a / real_of_int d"
      using d by (simp add: field_simps)
    also have "\<dots> < 2 ^ mant_bits fmt * 2 powi E"
      unfolding va using A(2) by (simp add: mult_strict_right_mono flip: of_int_less_iff)
    also have "\<dots> = 2 powi (int (mant_bits fmt) + E)"
      by (simp add: power_int_add)
    finally have "ilog2 a d < int (mant_bits fmt) + E"
      by (rule powi_less_imp_less)
    then show ?thesis
      using E(1) by (simp add: e_def quantum_def)
  qed
  define Q where "Q = A * 2 ^ nat (E - e)"
  have Qr: "real_of_int Q * 2 powi e = real_of_int A * 2 powi E"
  proof -
    have "(2::real) powi E = 2 powi (E - e) * 2 powi e"
      by (simp add: power_int_diff)
    then show ?thesis
      using eE by (simp add: Q_def powi_nat)
  qed
  have mane: "mantissa a d e = Q"
  proof (cases "0 \<le> e")
    case True
    have "real_of_int a = real_of_int (Q * shl d e)"
      using va Qr d True by (simp add: shl_def powi_nat field_simps)
    then have "a = Q * shl d e"
      by (simp only: of_int_eq_iff)
    moreover have "0 < shl d e"
      using d by (simp add: shl_def)
    ultimately show ?thesis
      using True by (simp add: mantissa_def round_even_exact)
  next
    case False
    then have k: "e < 0" by simp
    have "real_of_int (shl a (- e)) = real_of_int (Q * d)"
      using va Qr d by (simp add: shl_def powi_neg [OF k] field_simps)
    then have "shl a (- e) = Q * d"
      by (simp only: of_int_eq_iff)
    then show ?thesis
      using False d by (simp add: mantissa_def round_even_exact)
  qed
  have Q0: "0 < Q"
    using A(1) by (simp add: Q_def)
  have Qle: "Q \<le> 2 ^ mant_bits fmt"
    using mantissa_le [OF a d p] mane unfolding e_def by simp
  have s1: "shl 1 (int (mant_bits fmt)) = 2 ^ mant_bits fmt"
    by (simp add: shl_def)
  have s2: "shl 1 (int (mant_bits fmt) - 1) = 2 ^ (mant_bits fmt - 1)"
    using p by (simp add: shl_def nat_diff_distrib')
  have half: "(2::real) ^ (mant_bits fmt - 1) * 2 powi (e + 1) = 2 ^ mant_bits fmt * 2 powi e"
  proof -
    have "(2::real) ^ mant_bits fmt = 2 * 2 ^ (mant_bits fmt - 1)"
      using p by (cases "mant_bits fmt") simp_all
    then show ?thesis by (simp add: powi_Suc)
  qed
  have rr: "round_ratio fmt n d = pack fmt (M < 0) Q e"
    using n by (simp add: round_ratio_def round_at_def mane sgn flip: a_def e_def)
  have sv: "real_of_int M = (if M < 0 then - real_of_int A else real_of_int A)"
    by (simp add: A_def)
  have top_strict: "e < E" if "Q = 2 ^ mant_bits fmt"
  proof (rule ccontr)
    assume "\<not> e < E"
    with eE have "E = e" by simp
    with that A(2) show False by (simp add: Q_def)
  qed
  show ?thesis
  proof (cases "Q = 2 ^ mant_bits fmt")
    case True
    have "e < E" using True by (rule top_strict)
    then have ov: "\<not> max_exp fmt - int (mant_bits fmt) < e"
      using E(2) by simp
    have "round_ratio fmt n d =
        Finite (if M < 0 then - (2 ^ (mant_bits fmt - 1)) else 2 ^ (mant_bits fmt - 1)) (e + 1)"
      using True ov Q0 by (simp add: rr pack_def s1 s2)
    moreover have "real_of_int (if M < 0 then - (2 ^ (mant_bits fmt - 1)) else 2 ^ (mant_bits fmt - 1))
        * 2 powi (e + 1) = real_of_int M * 2 powi E"
      using half Qr True by (simp add: sv)
    ultimately show ?thesis by blast
  next
    case False
    have ov: "\<not> max_exp fmt - (int (mant_bits fmt) - 1) < e"
      using E(2) eE by simp
    have "round_ratio fmt n d = Finite (if M < 0 then - Q else Q) e"
      using False ov Q0 by (simp add: rr pack_def s1)
    moreover have "real_of_int (if M < 0 then - Q else Q) * 2 powi e = real_of_int M * 2 powi E"
      using Qr by (simp add: sv)
    ultimately show ?thesis by blast
  qed
qed


lemma round_dyadic_exact:
  assumes "0 < mant_bits fmt" and "M \<noteq> 0" and "\<bar>M\<bar> < 2 ^ mant_bits fmt"
    and "min_exp fmt \<le> E" and "E + int (mant_bits fmt) \<le> max_exp fmt + 1"
  shows "\<exists>m x. round_dyadic fmt M E = Finite m x \<and>
           real_of_int m * 2 powi x = real_of_int M * 2 powi E"
proof (cases "0 \<le> E")
  case True
  have "real_of_int (shl M E) / real_of_int 1 = real_of_int M * 2 powi E"
    using True by (simp add: shl_def powi_nat)
  then show ?thesis
    using round_ratio_exact [OF _ assms(1) _ assms(2-5), of 1 "shl M E"] True
    by (simp add: round_dyadic_def)
next
  case False
  then have k: "E < 0" by simp
  have "real_of_int M / real_of_int (shl 1 (- E)) = real_of_int M * 2 powi E"
    by (simp add: shl_def powi_neg [OF k])
  moreover have "0 < shl 1 (- E)"
    by (simp add: shl_def)
  ultimately show ?thesis
    using round_ratio_exact [OF _ assms(1) _ assms(2-5), of "shl 1 (- E)" M] False
    by (simp add: round_dyadic_def)
qed

lemma widen_exact:
  assumes "m \<noteq> 0" and "\<bar>m\<bar> < 2 ^ 24" and "- 149 \<le> x" and "x \<le> 104"
  shows "valof (widen (Finite m x)) = real_of_int m * 2 powi x"
proof -
  have "\<bar>m\<bar> < 2 ^ mant_bits binary64"
    using assms(2) by (simp add: binary64_def)
  then obtain m' x' where "round_dyadic binary64 m x = Finite m' x'"
    "real_of_int m' * 2 powi x' = real_of_int m * 2 powi x"
    using round_dyadic_exact [of binary64 m x] assms(1,3,4) by (auto simp: binary64_def)
  then show ?thesis by (simp add: valof_def)
qed

lemma readFloat_denominator: "readFloat s = Some (neg, n, d) \<Longrightarrow> 0 < d"
  by (auto simp: readFloat_def Let_def split: list.splits option.splits if_splits prod.splits)

lemma round_dyadic_nearest:
  assumes "0 < mant_bits fmt" and "round_dyadic fmt M E = Finite m x"
  shows "\<bar>m\<bar> < 2 ^ mant_bits fmt" and "min_exp fmt \<le> x"
    and "\<bar>real_of_int m * 2 powi x - real_of_int M * 2 powi E\<bar> \<le> 2 powi x / 2"
proof -
  have "\<bar>m\<bar> < 2 ^ mant_bits fmt \<and> min_exp fmt \<le> x \<and>
      \<bar>real_of_int m * 2 powi x - real_of_int M * 2 powi E\<bar> \<le> 2 powi x / 2"
  proof (cases "0 \<le> E")
    case True
    then have r: "round_ratio fmt (shl M E) 1 = Finite m x"
      using assms(2) by (simp add: round_dyadic_def)
    have "real_of_int (shl M E) / real_of_int 1 = real_of_int M * 2 powi E"
      using True by (simp add: shl_def powi_nat)
    then show ?thesis
      using round_ratio_nearest(2,3,5) [OF _ assms(1) r] by simp
  next
    case False
    then have k: "E < 0" by simp
    have r: "round_ratio fmt M (shl 1 (- E)) = Finite m x"
      using assms(2) False by (simp add: round_dyadic_def)
    have p: "0 < shl 1 (- E)"
      by (simp add: shl_def)
    have "real_of_int M / real_of_int (shl 1 (- E)) = real_of_int M * 2 powi E"
      by (simp add: shl_def powi_neg [OF k])
    then show ?thesis
      using round_ratio_nearest(2,3,5) [OF p assms(1) r] by simp
  qed
  then show "\<bar>m\<bar> < 2 ^ mant_bits fmt" and "min_exp fmt \<le> x"
    and "\<bar>real_of_int m * 2 powi x - real_of_int M * 2 powi E\<bar> \<le> 2 powi x / 2"
    by simp_all
qed

lemma shl_powi: "0 \<le> k \<Longrightarrow> real_of_int (shl m k) = real_of_int m * 2 powi k"
  by (simp add: shl_def powi_nat)

theorem fmul_nearest:
  assumes "fmul (Finite m1 e1) (Finite m2 e2) = Finite m x"
  shows "\<bar>m\<bar> < 2 ^ 53 \<and> - 1074 \<le> x \<and>
         \<bar>valof (Finite m x) - valof (Finite m1 e1) * valof (Finite m2 e2)\<bar> \<le> 2 powi x / 2"
proof -
  have "round_dyadic binary64 (m1 * m2) (e1 + e2) = Finite m x"
    using assms by simp
  from round_dyadic_nearest [OF _ this]
  show ?thesis
    by (simp add: binary64_def valof_def power_int_add mult_ac)
qed

theorem fadd_nearest:
  assumes "fadd (Finite m1 e1) (Finite m2 e2) = Finite m x"
  shows "\<bar>m\<bar> < 2 ^ 53 \<and> - 1074 \<le> x \<and>
         \<bar>valof (Finite m x) - (valof (Finite m1 e1) + valof (Finite m2 e2))\<bar> \<le> 2 powi x / 2"
proof -
  define e where "e = min e1 e2"
  have r: "round_dyadic binary64 (shl m1 (e1 - e) + shl m2 (e2 - e)) e = Finite m x"
    using assms by (simp add: e_def)
  have "real_of_int (shl m1 (e1 - e) + shl m2 (e2 - e)) * 2 powi e =
      real_of_int m1 * 2 powi e1 + real_of_int m2 * 2 powi e2"
  proof -
    have "0 \<le> e1 - e" "0 \<le> e2 - e"
      by (simp_all add: e_def)
    then have "real_of_int (shl m1 (e1 - e) + shl m2 (e2 - e)) =
        real_of_int m1 * 2 powi (e1 - e) + real_of_int m2 * 2 powi (e2 - e)"
      by (simp add: shl_powi)
    then show ?thesis
      by (simp add: power_int_diff field_simps)
  qed
  with round_dyadic_nearest [OF _ r]
  show ?thesis
    by (simp add: binary64_def valof_def)
qed

theorem fdiv_nearest:
  assumes "fdiv (Finite m1 e1) (Finite m2 e2) = Finite m x" and "m2 \<noteq> 0"
  shows "\<bar>m\<bar> < 2 ^ 53 \<and> - 1074 \<le> x \<and>
         \<bar>valof (Finite m x) - valof (Finite m1 e1) / valof (Finite m2 e2)\<bar> \<le> 2 powi x / 2"
proof -
  define n where "n = (if m2 < 0 then - m1 else m1)"
  define d where "d = \<bar>m2\<bar>"
  have q: "real_of_int n / real_of_int d = real_of_int m1 / real_of_int m2"
    using assms(2) by (simp add: n_def d_def)
  have d: "0 < d"
    using assms(2) by (simp add: d_def)
  have s: "(2::real) powi e1 / 2 powi e2 = 2 powi (e1 - e2)"
    by (simp add: power_int_diff)
  have v: "(real_of_int m1 * 2 powi e1) / (real_of_int m2 * 2 powi e2) =
      real_of_int n / real_of_int d * 2 powi (e1 - e2)"
    unfolding q s [symmetric] by simp
  show ?thesis
  proof (cases "e2 \<le> e1")
    case True
    then have r: "round_ratio binary64 (shl n (e1 - e2)) d = Finite m x"
      using assms(1) by (simp add: n_def d_def)
    have "real_of_int (shl n (e1 - e2)) / real_of_int d =
        (real_of_int m1 * 2 powi e1) / (real_of_int m2 * 2 powi e2)"
      unfolding v using True by (simp add: shl_powi)
    with round_ratio_nearest(2,3,5) [OF d _ r]
    show ?thesis
      by (simp add: binary64_def valof_def)
  next
    case False
    then have r: "round_ratio binary64 n (shl d (e2 - e1)) = Finite m x"
      using assms(1) by (simp add: n_def d_def)
    have p: "0 < shl d (e2 - e1)"
      using d by (simp add: shl_def)
    have i: "(2::real) powi (e1 - e2) = 1 / 2 powi (e2 - e1)"
      by (simp add: power_int_diff)
    have "real_of_int (shl d (e2 - e1)) = real_of_int d * 2 powi (e2 - e1)"
      using False by (simp add: shl_powi)
    then have "real_of_int n / real_of_int (shl d (e2 - e1)) =
        (real_of_int m1 * 2 powi e1) / (real_of_int m2 * 2 powi e2)"
      unfolding v i by simp
    with round_ratio_nearest(2,3,5) [OF p _ r]
    show ?thesis
      by (simp add: binary64_def valof_def)
  qed
qed

text \<open>
  An integer below \<open>2^53\<close> in magnitude converts to float64 and back unchanged.
\<close>

lemma trunc_exact:
  assumes "real_of_int m * 2 powi x = real_of_int n"
  shows "trunc (Finite m x) = Some n"
proof (cases "0 \<le> x")
  case True
  then have "real_of_int (shl m x) = real_of_int n"
    using assms by (simp add: shl_powi)
  then have "shl m x = n"
    by (simp only: of_int_eq_iff)
  with True show ?thesis by simp
next
  case False
  then have k: "x < 0" by simp
  have "real_of_int m = real_of_int (n * shl 1 (- x))"
    using assms by (simp add: shl_def powi_neg [OF k] field_simps)
  then have m: "m = n * shl 1 (- x)"
    by (simp only: of_int_eq_iff)
  have p: "0 < shl 1 (- x)"
    by (simp add: shl_def)
  have "- m = (- n) * shl 1 (- x)"
    using m by simp
  then have "- m div shl 1 (- x) = - n"
    using p by (metis less_irrefl nonzero_mult_div_cancel_right)
  moreover have "m div shl 1 (- x) = n"
    using m p by simp
  ultimately show ?thesis
    using False by simp
qed

lemma float64_of_int_exact:
  assumes "\<bar>n\<bar> < 2 ^ 53"
  shows "trunc (float64_of_int n) = Some n"
proof (cases "n = 0")
  case True
  then show ?thesis by (simp add: float64_of_int_def round_ratio_def)
next
  case False
  have "real_of_int n / real_of_int 1 = real_of_int n * 2 powi 0"
    by simp
  then obtain m x where "round_ratio binary64 n 1 = Finite m x"
    "real_of_int m * 2 powi x = real_of_int n * 2 powi 0"
    using round_ratio_exact [of 1 binary64 n n 0] False assms
    by (auto simp: binary64_def)
  then have "trunc (Finite m x) = Some n"
    by (intro trunc_exact) simp
  then show ?thesis
    using \<open>round_ratio binary64 n 1 = Finite m x\<close> by (simp only: float64_of_int_def)
qed

text \<open>Truncation of a number that is not negative is the floor of its value.\<close>

lemma trunc_floor:
  assumes "0 \<le> m"
  shows "trunc (Finite m e) = Some \<lfloor>real_of_int m * 2 powi e\<rfloor>"
proof (cases "0 \<le> e")
  case True
  then have "real_of_int m * 2 powi e = real_of_int (shl m e)"
    by (simp add: shl_powi)
  then have "\<lfloor>real_of_int m * 2 powi e\<rfloor> = shl m e"
    by (simp only: floor_of_int)
  with True show ?thesis by simp
next
  case False
  then have k: "e < 0" by simp
  have "real_of_int m * 2 powi e = real_of_int m / real_of_int (shl 1 (- e))"
    by (simp add: powi_neg [OF k] shl_def)
  then have "\<lfloor>real_of_int m * 2 powi e\<rfloor> = m div shl 1 (- e)"
    by (simp only: floor_divide_of_int_eq)
  moreover have "m = 0 \<or> \<not> m < 0"
    using assms by simp
  ultimately show ?thesis
    using False by auto
qed

text \<open>Rounding and division keep a sign that is not negative.\<close>

lemma round_ratio_not_negative:
  assumes "0 \<le> n" and "0 < d"
  shows "\<not> signbit (round_ratio fmt n d)"
proof (cases "n = 0")
  case True
  then show ?thesis by (simp add: round_ratio_def)
next
  case False
  then have a: "0 < \<bar>n\<bar>" "\<not> n < 0"
    using assms(1) by simp_all
  have "0 \<le> mantissa \<bar>n\<bar> d (quantum fmt \<bar>n\<bar> d)"
    using a(1) assms(2) by (rule mantissa_bounds(2))
  then show ?thesis
    using False a(2) by (simp add: round_ratio_def round_at_def pack_def shl_def)
qed

lemma fdiv_not_negative:
  assumes "\<not> signbit a" and "0 < m2"
  shows "\<not> signbit (fdiv a (Finite m2 e2))"
proof (cases a)
  case (Finite m1 e1)
  then have "0 \<le> m1"
    using assms(1) by simp
  moreover have "0 < \<bar>m2\<bar>" "\<not> m2 < 0"
    using assms(2) by simp_all
  ultimately show ?thesis
    unfolding Finite by (simp add: round_ratio_not_negative shl_def)
qed (use assms in simp_all)

lemma Pow10_positive: "\<not> signbit (Pow10 q)" "Pow10 q = Finite m e \<Longrightarrow> 0 < m"
proof -
  show s: "\<not> signbit (Pow10 q)"
    by (simp add: Pow10_def round_ratio_not_negative)
  assume f: "Pow10 q = Finite m e"
  then have "round_ratio binary64 (10 ^ nat q) 1 = Finite m e"
    by (simp add: Pow10_def split: if_splits)
  then have "m \<noteq> 0"
    by (intro round_ratio_nearest(1) [of 1 binary64]) (simp_all add: binary64_def)
  moreover have "\<not> m < 0"
    using s by (simp add: f)
  ultimately show "0 < m"
    by simp
qed

section \<open>Facts about the operations\<close>

lemma fle_zero_not_flt: "fle (Zero False) a \<Longrightarrow> \<not> flt a (Zero False)"
  by (cases a) (auto simp: fle_def flt_def)

lemma half_positive: "signbit (f64 1 2) = False"
  by (simp add: float_eval)

lemma fresh_never: "RefreshInterval c \<le> 0 \<Longrightarrow> fresh w c = False"
  by (simp add: fresh_def)

lemma receive_get_calls: "get_calls (fst (receive w c r)) = Suc (get_calls c)"
  by (cases r) (simp_all add: tick_def)

lemma fetchXML_prec: "fetchXML w c = (c', r) \<Longrightarrow> prec c' = prec c"
  by (cases "network w (get_calls c)") (auto simp: fetchXML_def tick_def split: if_splits)

lemma Fetch_prec: "Fetch w t c = (c', r) \<Longrightarrow> prec c' = prec c"
proof -
  assume a: "Fetch w t c = (c', r)"
  obtain c1 e1 where f: "fetchXML w c = (c1, e1)"
    by (cases "fetchXML w c")
  from a f have "c' = c1"
    by (cases e1; cases "XRefData c1") (auto simp: Fetch_def)
  with f show ?thesis by (simp add: fetchXML_prec)
qed

lemma lookup_day_find:
  "lookup_day k ds = (case find (\<lambda>d. RateTime d = k) ds of None \<Rightarrow> [] | Some d \<Rightarrow> Rates d)"
  by (induction ds) auto

text \<open>A code present in the day's list, or already held, is what the scan ends with.\<close>

lemma scan_legs_found:
  "C \<in> Currency ` set dayData \<or> (\<exists>r. legs = (Some r, Some r) \<and> Currency r = C) \<Longrightarrow>
   \<exists>r. scan_legs C C dayData legs = (Some r, Some r) \<and> Currency r = C"
proof (induction dayData arbitrary: legs)
  case Nil
  then show ?case by simp
next
  case (Cons x xs)
  obtain i o' where l: "legs = (i, o')"
    by (cases legs)
  show ?case
  proof (cases "C = Currency x")
    case True
    then show ?thesis using l Cons.IH [of "(Some x, Some x)"] by simp
  next
    case False
    then show ?thesis using l Cons.prems Cons.IH [of legs] by auto
  qed
qed

lemma resolve_same:
  assumes "C \<in> Currency ` set dayData \<or> C = EUCurr"
  shows "\<exists>r. resolve C C dayData = (Some r, Some r) \<and> Currency r = C"
proof (cases "C = EUCurr")
  case True
  obtain i o' where "scan_legs C C dayData (None, None) = (i, o')"
    by (cases "scan_legs C C dayData (None, None)")
  with True show ?thesis by (simp add: resolve_def)
next
  case False
  with assms have "C \<in> Currency ` set dayData"
    by simp
  then obtain r where "scan_legs C C dayData (None, None) = (Some r, Some r)" "Currency r = C"
    using scan_legs_found [of C dayData "(None, None)"] by blast
  with False show ?thesis by (simp add: resolve_def)
qed

lemma with_euro_source:
  "fst (with_euro EUCurr target legs) = Some \<lparr>Currency = EUCurr, Rate = EURate\<rparr>"
  by (cases legs) simp

lemma with_euro_target:
  "snd (with_euro source EUCurr legs) = Some \<lparr>Currency = EUCurr, Rate = EURate\<rparr>"
  by (cases legs) simp

text \<open>The loop over the days: a prefix that succeeds hands its client and map on.\<close>

lemma fetch_days_append:
  "fetch_days w pre c rates = (cm, ratesm, None) \<Longrightarrow>
   fetch_days w (pre @ rest) c rates = fetch_days w rest cm ratesm"
proof (induction pre arbitrary: c rates)
  case Nil
  then show ?case by simp
next
  case (Cons dayD pre)
  then show ?case
    by (auto split: option.splits prod.splits)
qed

lemma fetch_days_dom:
  "fetch_days w ds c rates = (c', rates', None) \<Longrightarrow>
   dom rates' = dom rates \<union> {t. \<exists>d \<in> set ds. Parse (RateTime d) = Some t}"
proof (induction ds arbitrary: c rates)
  case Nil
  then show ?case by simp
next
  case (Cons dayD ds)
  from Cons.prems obtain t where t: "Parse (RateTime dayD) = Some t"
    by (cases "Parse (RateTime dayD)") auto
  obtain c1 d e where f: "Fetch w t c = (c1, d, e)"
    by (cases "Fetch w t c") auto
  from Cons.prems t f have e: "e = None"
    by (cases e) auto
  from Cons.prems t f e have "fetch_days w ds c1 (rates(t \<mapsto> d)) = (c', rates', None)"
    by simp
  then have "dom rates' = dom (rates(t \<mapsto> d)) \<union> {t. \<exists>d \<in> set ds. Parse (RateTime d) = Some t}"
    by (rule Cons.IH)
  with t show ?case by auto
qed

text \<open>More than 292 years after the zero time the elapsed time is the largest duration.\<close>

lemma elapsed_saturated:
  assumes "maxDuration \<le> abs_nanos now"
  shows "elapsed w now zero_time = 9223372036"
proof -
  have z: "abs_nanos zero_time = 0"
    by (simp add: time_eval)
  have s: "Sub now zero_time = maxDuration"
    using assms by (simp add: Sub_def z minDuration_def maxDuration_def)
  have "int_of (int_conv w) (Seconds maxDuration) = 9223372036"
    by (simp add: time_eval float_eval)
  with s show ?thesis by (simp add: elapsed_def)
qed

text \<open>A duration of whole seconds is read as that many seconds.\<close>

lemma Seconds_whole:
  assumes "\<bar>s\<bar> < 2 ^ 53"
  shows "trunc (Seconds (s * 1000000000)) = Some s"
proof -
  have "- (s * 1000000000) = (- s) * 1000000000"
    by simp
  then have "- (s * 1000000000) div 1000000000 = - s"
    by (simp only: nonzero_mult_div_cancel_right)
  then have q: "quot (s * 1000000000) 1000000000 = s"
    by (simp add: quot_def)
  have r: "rem (s * 1000000000) 1000000000 = 0"
    by (simp add: rem_def q)
  have z: "fdiv (float64_of_int 0) (f64 1000000000 1) = Zero False"
    by (simp add: float_eval)
  have t: "trunc (float64_of_int s) = Some s"
    using assms by (rule float64_of_int_exact)
  have "fadd (float64_of_int s) (Zero False) = float64_of_int s \<or> float64_of_int s = Zero False \<or> float64_of_int s = Zero True"
    by (cases "float64_of_int s") simp_all
  then have "trunc (fadd (float64_of_int s) (Zero False)) = Some s"
    using t by (elim disjE) auto
  then show ?thesis
    by (simp only: Seconds_def q r z)
qed

lemma elapsed_whole_seconds:
  assumes "Sub t u = s * 1000000000"
  shows "elapsed w t u = s"
proof -
  have b: "- (2 ^ 63) \<le> Sub t u" "Sub t u \<le> 2 ^ 63 - 1"
    by (simp_all add: Sub_def maxDuration_def minDuration_def)
  then have "\<bar>s\<bar> < 2 ^ 53"
    using assms by simp
  then have "trunc (Seconds (Sub t u)) = Some s"
    unfolding assms by (rule Seconds_whole)
  moreover have "- (2 ^ 63) \<le> s" "s < 2 ^ 63"
    using b assms by simp_all
  ultimately show ?thesis
    by (simp add: elapsed_def int_of_def)
qed

text \<open>
  A new client whose refresh interval exceeds the largest duration makes no request
  on its first call, and the lookup reads the nil document.
\<close>

lemma fetchXML_never_fetched_skips:
  assumes "maxDuration \<le> abs_nanos (clock w 0)" and "9223372036 < sint ttl"
  shows "fetchXML w (New p ttl) = (tick (New p ttl), None)"
    and "Fetch w t (New p ttl) = (tick (New p ttl), [], Some NilPointerPanic)"
proof -
  have n: "lastFetched (New p ttl) = zero_time" "RefreshInterval (New p ttl) = sint ttl"
    "XRefData (New p ttl) = None" "now_calls (New p ttl) = 0"
    by (simp_all add: New_def)
  have "elapsed w (clock w 0) zero_time = 9223372036"
    using assms(1) by (rule elapsed_saturated)
  then have "fresh w (New p ttl)"
    using assms(2) by (simp add: fresh_def n)
  then show f: "fetchXML w (New p ttl) = (tick (New p ttl), None)"
    by (simp add: fetchXML_def)
  have "XRefData (tick (New p ttl)) = None"
    by (simp add: tick_def n)
  then show "Fetch w t (New p ttl) = (tick (New p ttl), [], Some NilPointerPanic)"
    by (simp add: Fetch_def f)
qed

text \<open>
  The freshness check: an interval of zero, a positive interval not yet elapsed (in
  whole seconds), a new client with an interval of at most 9223372036 seconds, and a
  time difference of whole seconds.
\<close>

lemma fetchXML_freshness:
  "(RefreshInterval c = 0 \<longrightarrow> get_calls (fst (fetchXML w c)) = Suc (get_calls c)) \<and>
   (0 < RefreshInterval c \<longrightarrow>
    elapsed w (clock w (now_calls c)) (lastFetched c) < RefreshInterval c \<longrightarrow>
    fetchXML w c = (tick c, None)) \<and>
   (lastFetched c = zero_time \<longrightarrow> maxDuration \<le> abs_nanos (clock w (now_calls c)) \<longrightarrow>
    RefreshInterval c \<le> 9223372036 \<longrightarrow>
    get_calls (fst (fetchXML w c)) = Suc (get_calls c)) \<and>
   (Sub (clock w (now_calls c)) (lastFetched c) = s * 1000000000 \<longrightarrow>
    elapsed w (clock w (now_calls c)) (lastFetched c) = s)"
proof -
  have g: "get_calls (tick c) = get_calls c"
    by (simp add: tick_def)
  have a: "get_calls (fst (fetchXML w c)) = Suc (get_calls c)" if "\<not> fresh w c"
    using that by (simp add: fetchXML_def receive_get_calls g)
  have b: "\<not> fresh w c" if "RefreshInterval c = 0"
    using that by (simp add: fresh_def)
  have c: "\<not> fresh w c"
    if "lastFetched c = zero_time" "maxDuration \<le> abs_nanos (clock w (now_calls c))"
      "RefreshInterval c \<le> 9223372036"
    using that by (simp add: fresh_def elapsed_saturated)
  have d: "fetchXML w c = (tick c, None)"
    if "0 < RefreshInterval c" "elapsed w (clock w (now_calls c)) (lastFetched c) < RefreshInterval c"
    using that by (simp add: fetchXML_def fresh_def)
  have e: "elapsed w (clock w (now_calls c)) (lastFetched c) = s"
    if "Sub (clock w (now_calls c)) (lastFetched c) = s * 1000000000"
    using that by (rule elapsed_whole_seconds)
  from a b c d e show ?thesis by blast
qed

text \<open>
  The rounding utility: the precision is at least one; a scaled value that is not
  negative is truncated after the addition of 0.5; no result is negative; and the
  rounding of the specification is the floor of the value plus one half, which is the
  result wherever the float64 addition of 0.5 is exact.
\<close>

lemma FloatToFixed_min_precision: "FloatToFixed cv x p = FloatToFixed cv x (max 1 p)"
  by (simp add: FloatToFixed_def max_def)

lemma FloatToFixed_truncated:
  assumes s: "\<not> signbit (fmul x (Pow10 (max 1 p)))"
    and t: "trunc (fadd (fmul x (Pow10 (max 1 p))) (f64 1 2)) = Some t" "0 \<le> t" "t < 2 ^ 64"
  shows "FloatToFixed cv x p = fdiv (float64_of_int t) (Pow10 (max 1 p))"
proof -
  have m: "(if p < 1 then 1 else p) = max 1 p"
    by (simp add: max_def)
  have c: "Copysign (f64 1 2) (fmul x (Pow10 (max 1 p))) = f64 1 2"
    using s by (simp add: Copysign_def half_positive)
  have u: "uint (word_of_int t :: 64 word) = t"
    using t(2,3) by (simp add: uint_word_of_int take_bit_int_eq_self)
  show ?thesis
    using t by (simp add: FloatToFixed_def Let_def m roundFloat_def c uint64_of_def
        float64_of_uint64_def u)
qed

lemma FloatToFixed_not_negative: "\<not> signbit (FloatToFixed cv x p)"
proof -
  have u: "\<not> signbit (float64_of_uint64 u)" for u
    by (simp add: float64_of_uint64_def float64_of_int_def round_ratio_not_negative)
  have "\<not> signbit (fdiv (float64_of_uint64 u) (Pow10 q))" for u q
  proof (cases "Pow10 q")
    case (Finite m e)
    then have "0 < m"
      by (rule Pow10_positive(2))
    with u show ?thesis
      unfolding Finite by (rule fdiv_not_negative)
  next
    case (Zero b)
    then have "\<not> b"
      using Pow10_positive(1) [of q] by simp
    then show ?thesis
      using u [of u] unfolding Zero by (cases "float64_of_uint64 u") simp_all
  next
    case (Infinity b)
    then have "\<not> b"
      using Pow10_positive(1) [of q] by simp
    then show ?thesis
      using u [of u] unfolding Infinity by (cases "float64_of_uint64 u") simp_all
  next
    case NaN
    then show ?thesis
      by (cases "float64_of_uint64 u") simp_all
  qed
  then show ?thesis
    by (simp add: FloatToFixed_def Let_def)
qed

lemma half_away_floor:
  assumes "0 \<le> m"
  shows "half_away (Finite m e) = \<lfloor>real_of_int m * 2 powi e + 1 / 2\<rfloor>"
proof (cases "0 \<le> e")
  case True
  then have "real_of_int m * 2 powi e = real_of_int (shl m e)"
    by (simp add: shl_powi)
  then have "\<lfloor>real_of_int m * 2 powi e + 1 / 2\<rfloor> = shl m e"
    by (simp only:) linarith
  with True show ?thesis by simp
next
  case False
  then have k: "e < 0" by simp
  then have n: "nat (- e) = Suc (nat (- e - 1))"
    by simp
  have s: "shl 1 (- e) = 2 * shl 1 (- e - 1)"
    by (simp add: shl_def n)
  have "real_of_int m * 2 powi e + 1 / 2 =
      real_of_int (m + shl 1 (- e - 1)) / real_of_int (shl 1 (- e))"
    unfolding s by (simp add: powi_neg [OF k] shl_def n field_simps)
  then have "\<lfloor>real_of_int m * 2 powi e + 1 / 2\<rfloor> = (m + shl 1 (- e - 1)) div shl 1 (- e)"
    by (simp only: floor_divide_of_int_eq)
  moreover have "m = 0 \<or> \<not> m < 0"
    using assms by simp
  ultimately show ?thesis
    using False by auto
qed

lemma FloatToFixed_half_away:
  assumes y: "fmul x (Pow10 (max 1 p)) = Finite m e" and m: "0 < m"
    and ex: "valof (fadd (Finite m e) (f64 1 2)) = valof (Finite m e) + 1 / 2"
    and r: "half_away (Finite m e) < 2 ^ 64"
  shows "FloatToFixed cv x p = toFixed_spec x p"
proof -
  have pos: "0 < real_of_int m * 2 powi e"
    using m by simp
  then have "valof (fadd (Finite m e) (f64 1 2)) \<noteq> 0"
    unfolding ex by (simp add: valof_def)
  then obtain m' e' where f: "fadd (Finite m e) (f64 1 2) = Finite m' e'"
    by (cases "fadd (Finite m e) (f64 1 2)") (simp_all add: valof_def)
  have v: "real_of_int m' * 2 powi e' = real_of_int m * 2 powi e + 1 / 2"
    using ex by (simp add: f valof_def)
  have "0 < real_of_int m' * 2 powi e'"
    unfolding v using pos by simp
  then have "0 < real_of_int m'"
    using powi_pos [of e'] by (rule zero_less_mult_pos2)
  then have m': "0 \<le> m'"
    by simp
  have t: "trunc (fadd (Finite m e) (f64 1 2)) = Some (half_away (Finite m e))"
    unfolding f using trunc_floor [OF m', of e'] half_away_floor [of m e] m
    by (simp add: v)
  have "0 \<le> \<lfloor>real_of_int m * 2 powi e + 1 / 2\<rfloor>"
    using pos by simp
  then have n: "0 \<le> half_away (Finite m e)"
    using half_away_floor [of m e] m by simp
  have s: "\<not> signbit (fmul x (Pow10 (max 1 p)))"
    using m by (simp add: y)
  have t': "trunc (fadd (fmul x (Pow10 (max 1 p))) (f64 1 2)) = Some (half_away (Finite m e))"
    unfolding y by (rule t)
  have "FloatToFixed cv x p = fdiv (float64_of_int (half_away (Finite m e))) (Pow10 (max 1 p))"
    using s t' n r by (rule FloatToFixed_truncated)
  then show ?thesis
    by (simp only: toFixed_spec_def y)
qed

section \<open>The sample feed, evaluated\<close>

lemma new_client: "RefreshInterval (New 4 0) \<le> 0" "prec (New 4 0) = 4"
  by (simp_all add: New_def)

lemma fetched_client:
  "RefreshInterval (fetched c) = RefreshInterval c" "prec (fetched c) = prec c"
  "XRefData (fetched c) = Some feed"
  by (simp_all add: fetched_def)

lemma fetchXML_served:
  "RefreshInterval c \<le> 0 \<Longrightarrow> fetchXML served c = (fetched c, None)"
  by (simp add: fetchXML_def fresh_never served_def tick_def fetched_def)

lemma key_11: "Format (Date 2016 11 11 23 0 0 0) = ''2016-11-11''"
  by (simp add: time_eval)

lemma rate_USD:
  "append_rate no_conv64 4 [] (newExchangeRate \<lparr>raw_Currency = ''USD'', raw_Rate = ''1.002''\<rparr>) =
     ([\<lparr>Currency = ''USD'', Rate = f64 1002 1000\<rparr>], None)"
  by (simp add: parse_eval round_eval float_eval)

lemma rate_CHF:
  "append_rate no_conv64 4 [\<lparr>Currency = ''USD'', Rate = f64 1002 1000\<rparr>]
     (newExchangeRate \<lparr>raw_Currency = ''CHF'', raw_Rate = ''1.03''\<rparr>) = (day_11, None)"
  by (simp add: parse_eval round_eval float_eval day_11_def)

lemma Fetch_day_11_any:
  assumes "RefreshInterval c \<le> 0" and "prec c = 4" and "Format t = ''2016-11-11''"
  shows "Fetch served t c = (fetched c, day_11, None)"
proof -
  have "uint64_conv served = no_conv64" "prec (fetched c) = 4" "XRefData (fetched c) = Some feed"
    using assms by (simp_all add: served_def fetched_def)
  then show ?thesis
    using assms by (simp add: Fetch_def fetchXML_served feed_def rate_USD rate_CHF)
qed

lemma Fetch_day_11:
  assumes "RefreshInterval c \<le> 0" and "prec c = 4"
  shows "Fetch served (Date 2016 11 11 23 0 0 0) c = (fetched c, day_11, None)"
  using assms key_11 by (rule Fetch_day_11_any)

lemma cross_rate_eval:
  "FloatToFixed no_conv64
     (fmul (FloatToFixed no_conv64 (f64 10 1) 2)
           (FloatToFixed no_conv64 (fdiv (f64 1002 1000) (f64 103 100)) 4)) 4 = f64 9728 1000"
  by (simp add: round_eval float_eval)

lemma ten_nonneg: "fle (Zero False) (f64 10 1)"
  by (simp add: float_eval)

lemma minus_ten_negative: "flt (f64 (- 10) 1) (Zero False)"
  by (simp add: float_eval)

lemma Convert_scenario:
  "Convert served (f64 10 1) ''CHF'' ''USD'' (Date 2016 11 11 23 0 0 0) (New 4 0) =
     (fetched (New 4 0), f64 9728 1000, None)"
proof -
  have p: "prec (fetched (New 4 0)) = 4" "uint64_conv served = no_conv64"
    by (simp_all add: New_def fetched_def served_def)
  have r: "resolve ''CHF'' ''USD'' day_11 =
      (Some \<lparr>Currency = ''CHF'', Rate = f64 103 100\<rparr>,
       Some \<lparr>Currency = ''USD'', Rate = f64 1002 1000\<rparr>)"
    by (simp add: resolve_def day_11_def EUCurr_def)
  show ?thesis
    using fle_zero_not_flt [OF ten_nonneg] p
    by (simp add: Convert_def Fetch_day_11 [OF new_client] r computeExchangeValue_def
        cross_rate_eval)
qed

lemma first_day:
  "fetch_days served [\<lparr>RateTime = ''2016-11-11'', Rates = rs\<rparr>] (fetched (New 4 0)) Map.empty =
     (fetched (fetched (New 4 0)), [Date 2016 11 11 0 0 0 0 \<mapsto> day_11], None)"
  by (simp add: digit_def daysIn_def isLeap_def Fetch_day_11_any fetched_client new_client
      time_eval)

lemma second_day:
  "Fetch served (Date 2016 11 8 0 0 0 0) (fetched (fetched (New 4 0))) =
     (fetched (fetched (fetched (New 4 0))), [], Some (DateNotFound ''2016-11-08''))"
  by (simp add: Fetch_def time_eval fetchXML_served fetched_client new_client)
     (simp add: feed_def)

lemma thirty_seconds:
  "elapsed w (Date 2016 11 12 10 0 0 0) (Date 2016 11 12 9 59 30 0) = 30"
  by (simp add: elapsed_def time_eval float_eval)

lemma now_late: "maxDuration \<le> abs_nanos (Date 2016 11 12 10 0 0 0)"
  by (simp add: time_eval)

lemma rounded_amount: "FloatToFixed no_conv64 (f64 10123456 1000000) 4 = f64 101235 10000"
  by (simp add: round_eval float_eval)

text \<open>The cases of \<open>TestRoundingFloats\<close> in \<open>euroxref_test.go\<close>.\<close>

lemma TestRoundingFloats:
  "FloatToFixed no_conv64 (f64 10 1) 1 = f64 10 1"
  "FloatToFixed no_conv64 (f64 10 1) 4 = f64 10 1"
  "FloatToFixed no_conv64 (f64 10 1) 0 = f64 10 1"
  "FloatToFixed no_conv64 (f64 4233 10000) 2 = f64 42 100"
  "FloatToFixed no_conv64 (f64 4251 10000) 2 = f64 43 100"
  "FloatToFixed no_conv64 (f64 4251 10000) 1 = f64 4 10"
  "FloatToFixed no_conv64 (f64 4851 10000) 0 = f64 5 10"
  "FloatToFixed no_conv64 (f64 1 1000000) 0 = Zero False"
  "FloatToFixed no_conv64 (f64 425176543 1000000000) 10 = f64 425176543 1000000000"
  "FloatToFixed no_conv64 (f64 1999999999 1000000000) 10 = f64 1999999999 1000000000"
  "FloatToFixed no_conv64 (f64 1 10000000000) 10 = f64 1 10000000000"
  "FloatToFixed no_conv64 (f64 2131123123131222 1000) 3 = f64 2131123123131222 1000"
  by (simp_all add: round_eval float_eval)

text \<open>
  A value scaled beyond the unsigned 64-bit integers is not rounded: the result is
  whatever the platform's conversion gives, divided by the power of ten.
\<close>

lemma FloatToFixed_out_of_range:
  "FloatToFixed cv (f64 100000000000000000000 1) 1 =
     fdiv (float64_of_uint64 (cv (f64 1000000000000000000000 1))) (Pow10 1)"
proof -
  have "fadd (fmul (f64 100000000000000000000 1) (Pow10 1))
      (Copysign (f64 1 2) (fmul (f64 100000000000000000000 1) (Pow10 1))) =
      f64 1000000000000000000000 1"
    by (simp add: float_eval)
  moreover have "uint64_of cv (f64 1000000000000000000000 1) = cv (f64 1000000000000000000000 1)"
    by (simp add: float_eval)
  ultimately show ?thesis
    by (simp add: FloatToFixed_def roundFloat_def)
qed

text \<open>
  10.123456 at precision 4: the sum of 101234.56 and 0.5 is exact, and the result is the
  one of the reference rounding.
\<close>

lemma FloatToFixed_half_away_sample:
  "fmul (f64 10123456 1000000) (Pow10 4) = Finite 6956785990799196 (- 36) \<and>
   valof (fadd (Finite 6956785990799196 (- 36)) (f64 1 2)) =
     valof (Finite 6956785990799196 (- 36)) + 1 / 2 \<and>
   half_away (Finite 6956785990799196 (- 36)) = 101235 \<and>
   FloatToFixed cv (f64 10123456 1000000) 4 = toFixed_spec (f64 10123456 1000000) 4 \<and>
   toFixed_spec (f64 10123456 1000000) 4 = f64 101235 10000"
proof -
  have y: "fmul (f64 10123456 1000000) (Pow10 (max 1 4)) = Finite 6956785990799196 (- 36)"
    by (simp add: float_eval)
  have a: "fadd (Finite 6956785990799196 (- 36)) (f64 1 2) = Finite 6956820350537564 (- 36)"
    by (simp add: float_eval)
  have ex: "valof (fadd (Finite 6956785990799196 (- 36)) (f64 1 2)) =
      valof (Finite 6956785990799196 (- 36)) + 1 / 2"
    unfolding a by (simp add: valof_def powi_neg)
  have h: "half_away (Finite 6956785990799196 (- 36)) = 101235"
    by (simp add: shl_def)
  have s: "toFixed_spec (f64 10123456 1000000) 4 = f64 101235 10000"
    unfolding toFixed_spec_def y h by (simp add: float_eval)
  have "FloatToFixed cv (f64 10123456 1000000) 4 = toFixed_spec (f64 10123456 1000000) 4"
    using y _ ex by (rule FloatToFixed_half_away) (simp_all only: h, simp_all)
  with y ex h s show ?thesis by simp
qed

text \<open>
  A new client with interval 0, a client that fetched 30 seconds ago with interval 60,
  and a new client with interval 60.
\<close>

lemma fetchXML_freshness_sample:
  "RefreshInterval (New 4 0) = 0 \<and>
   get_calls (fst (fetchXML served (New 4 0))) = Suc (get_calls (New 4 0)) \<and>
   0 < RefreshInterval (cached 60) \<and>
   Sub (clock served (now_calls (cached 60))) (lastFetched (cached 60)) = 30 * 1000000000 \<and>
   elapsed served (clock served (now_calls (cached 60))) (lastFetched (cached 60)) = 30 \<and>
   fetchXML served (cached 60) = (tick (cached 60), None) \<and>
   lastFetched (New 4 60) = zero_time \<and>
   maxDuration \<le> abs_nanos (clock served (now_calls (New 4 60))) \<and>
   RefreshInterval (New 4 60) = 60 \<and>
   get_calls (fst (fetchXML served (New 4 60))) = Suc (get_calls (New 4 60))"
proof -
  have k: "clock served n = Date 2016 11 12 10 0 0 0" for n
    by (simp add: served_def)
  have c: "RefreshInterval (cached 60) = 60" "lastFetched (cached 60) = Date 2016 11 12 9 59 30 0"
    by (simp_all add: cached_def)
  have n: "RefreshInterval (New 4 0) = 0" "RefreshInterval (New 4 60) = 60"
    "lastFetched (New 4 60) = zero_time"
    by (simp_all add: New_def)
  have d: "Sub (Date 2016 11 12 10 0 0 0) (Date 2016 11 12 9 59 30 0) = 30 * 1000000000"
    by (simp add: time_eval)
  show ?thesis
    using fetchXML_freshness [of "New 4 0" served] fetchXML_freshness [of "cached 60" served 30]
      fetchXML_freshness [of "New 4 60" served]
    by (simp add: k c n d now_late)
qed

text \<open>
  The seconds elapsed are a float64 sum: 16777216.999999999 seconds are read as
  16777217.
\<close>

lemma elapsed_rounded_up:
  "Sub (Date 2016 11 12 10 0 0 0) (Date 2016 5 2 5 39 43 1) = 16777216999999999 \<and>
   elapsed w (Date 2016 11 12 10 0 0 0) (Date 2016 5 2 5 39 43 1) = 16777217"
  by (simp add: elapsed_def time_eval float_eval)

section \<open>The claims\<close>

subsection \<open>C1: a failed deserialization\<close>

text \<open>
  Claim C1 says that a fetch whose deserialization fails leaves the cached document and
  the last-fetch time unchanged and returns the error. The code returns the error, but
  only after storing what the decoder produced and the time (lines 155 to 158): a
  client that held the feed since 9:59:30 holds the empty document and the time 10:00
  after the failed fetch.
\<close>

theorem fetchXML_decode_failure:
  "XRefData (cached 0) = Some feed \<and> lastFetched (cached 0) = Date 2016 11 12 9 59 30 0 \<and>
   fetchXML garbled (cached 0) =
     ((cached 0)\<lparr>XRefData := Some \<lparr>Data = []\<rparr>, lastFetched := Date 2016 11 12 10 0 0 0,
                  now_calls := 2, get_calls := 1\<rparr>,
      Some (DecodeFailed ''unexpected EOF''))"
  by (simp add: fetchXML_def fresh_never garbled_def cached_def tick_def)

subsection \<open>C2: a negative amount\<close>

text \<open>
  Claim C2, as amended: for every negative amount \<open>Convert\<close> fails, whatever the
  currencies and the date; the amount is checked last, so the error is that of the
  fetch when the fetch fails, the one for unknown currencies when a code does not
  resolve, and \<open>InvalidAmount\<close> otherwise. The client afterwards is the one \<open>Fetch\<close>
  leaves: the request and the cache update take place before the check.
\<close>

theorem Convert_negative_amount:
  assumes "flt amount (Zero False)"
  shows "Convert w amount source target t c =
     (case Fetch w t c of
        (c', dayData, Some err) \<Rightarrow> (c', Zero False, Some err)
      | (c', dayData, None) \<Rightarrow>
          (case resolve source target dayData of
             (Some inp, Some to) \<Rightarrow> (c', Zero False, Some InvalidAmount)
           | _ \<Rightarrow> (c', Zero False,
                   Some (UnknownCurrency source target (map Currency dayData) (Format t)))))
     \<and> snd (snd (Convert w amount source target t c)) \<noteq> None"
proof -
  obtain c' dayData err where f: "Fetch w t c = (c', dayData, err)"
    by (cases "Fetch w t c") auto
  obtain inp to where r: "resolve source target dayData = (inp, to)"
    by (cases "resolve source target dayData")
  show ?thesis
    using assms f r
    by (cases err; cases inp; cases to) (simp_all add: Convert_def computeExchangeValue_def)
qed

text \<open>Witness: minus ten dollars to dollars on a day the feed has.\<close>

theorem Convert_negative_amount_witness:
  "flt (f64 (- 10) 1) (Zero False) \<and>
   Convert served (f64 (- 10) 1) ''USD'' ''USD'' (Date 2016 11 11 23 0 0 0) (New 4 0) =
     (fetched (New 4 0), Zero False, Some InvalidAmount)"
proof -
  have r: "resolve ''USD'' ''USD'' day_11 =
      (Some \<lparr>Currency = ''USD'', Rate = f64 1002 1000\<rparr>,
       Some \<lparr>Currency = ''USD'', Rate = f64 1002 1000\<rparr>)"
    by (simp add: resolve_def day_11_def EUCurr_def)
  show ?thesis
    using Convert_negative_amount [OF minus_ten_negative, of served "''USD''" "''USD''"
        "Date 2016 11 11 23 0 0 0" "New 4 0"] minus_ten_negative
    by (simp add: Fetch_day_11 [OF new_client] r)
qed

text \<open>
  Counterexample to C2 as stated: on a date the feed does not have, the negative amount
  is answered with the error for the date, after a request has been made.
\<close>

theorem Convert_negative_amount_counterexample:
  "flt (f64 (- 10) 1) (Zero False) \<and>
   Convert served (f64 (- 10) 1) ''USD'' ''USD'' (Date 2002 11 8 23 0 0 0) (New 4 0) =
     (fetched (New 4 0), Zero False, Some (DateNotFound ''2002-11-08'')) \<and>
   get_calls (New 4 0) = 0 \<and> get_calls (fetched (New 4 0)) = 1"
proof -
  have k: "Format (Date 2002 11 8 23 0 0 0) = ''2002-11-08''"
    by (simp add: time_eval)
  have "Fetch served (Date 2002 11 8 23 0 0 0) (New 4 0) =
      (fetched (New 4 0), [], Some (DateNotFound ''2002-11-08''))"
    by (simp add: Fetch_def k fetchXML_served [OF new_client(1)]) (simp add: fetched_def feed_def)
  then show ?thesis
    using minus_ten_negative by (simp add: Convert_def) (simp add: New_def fetched_def)
qed

subsection \<open>C3: the cross rate\<close>

text \<open>
  Claim C3, as amended: for every non-negative amount and two legs with different codes
  the result is the amount rounded to 2 digits, times the quotient of the target's rate
  by the source's rounded to the configured precision, the product rounded to the
  configured precision again; on the scenario's feed, 10 CHF at precision 4 are
  9.728 USD.
\<close>

theorem computeExchangeValue_cross_rate:
  "(fle (Zero False) amount \<longrightarrow> Currency inp \<noteq> Currency to \<longrightarrow>
      computeExchangeValue cv c amount inp to =
        (FloatToFixed cv
           (fmul (FloatToFixed cv amount 2) (FloatToFixed cv (fdiv (Rate to) (Rate inp)) (prec c)))
           (prec c), None)) \<and>
   Convert served (f64 10 1) ''CHF'' ''USD'' (Date 2016 11 11 23 0 0 0) (New 4 0) =
     (fetched (New 4 0), f64 9728 1000, None)"
  using Convert_scenario by (simp add: computeExchangeValue_def fle_zero_not_flt)

text \<open>Witness: the two legs of the scenario.\<close>

theorem computeExchangeValue_cross_rate_witness:
  "fle (Zero False) (f64 10 1) \<and>
   Currency \<lparr>Currency = ''CHF'', Rate = f64 103 100\<rparr> \<noteq>
     Currency \<lparr>Currency = ''USD'', Rate = f64 1002 1000\<rparr> \<and>
   computeExchangeValue no_conv64 (New 4 0) (f64 10 1)
     \<lparr>Currency = ''CHF'', Rate = f64 103 100\<rparr> \<lparr>Currency = ''USD'', Rate = f64 1002 1000\<rparr> =
     (f64 9728 1000, None)"
  using computeExchangeValue_cross_rate [of "f64 10 1" "\<lparr>Currency = ''CHF'', Rate = f64 103 100\<rparr>"
      "\<lparr>Currency = ''USD'', Rate = f64 1002 1000\<rparr>" no_conv64 "New 4 0"] ten_nonneg
  by (simp add: new_client cross_rate_eval)

text \<open>
  Counterexample to C3 as stated: the scenario's conversion yields 9.728, which is not
  the float64 9.7281.
\<close>

theorem Convert_scenario_counterexample:
  "Convert served (f64 10 1) ''CHF'' ''USD'' (Date 2016 11 11 23 0 0 0) (New 4 0) =
     (fetched (New 4 0), f64 9728 1000, None) \<and> f64 9728 1000 \<noteq> f64 97281 10000"
  using Convert_scenario by (simp add: float_eval)

subsection \<open>C4: the rounding utility\<close>

text \<open>
  Claim C4 says that \<open>FloatToFixed\<close> rounds half away from zero at the precision raised
  to at least one, for every value, large or small. The code raises the precision, and
  where the float64 sum of the scaled value and 0.5 is exact its result is the one of
  \<open>toFixed_spec\<close>. But \<open>roundFloat\<close> converts the sum to \<open>uint64\<close> (line 129), so no result
  is negative: for -1.5 the sum -15.5 is out of the range of the conversion, and the
  result is what the platform gives for it, divided by ten, where the claim has -1.5.
  And the sum is rounded: for 0.049999999999999996 the scaled value is the float64 below
  0.5 and the sum is 1, which gives 0.1 where the claim has 0; for 450359962737049.7 the
  scaled value is \<open>2 ^ 52 + 1\<close> and the sum is \<open>2 ^ 52 + 2\<close>, which gives
  450359962737049.8.
\<close>

theorem FloatToFixed_not_half_away:
  "toFixed_spec (f64 (- 3) 2) 1 = f64 (- 3) 2 \<and> signbit (f64 (- 3) 2) \<and>
   FloatToFixed cv (f64 (- 3) 2) 1 = fdiv (float64_of_uint64 (cv (f64 (- 31) 2))) (Pow10 1) \<and>
   \<not> signbit (FloatToFixed cv x p) \<and>
   toFixed_spec (f64 49999999999999996 1000000000000000000) 1 = Zero False \<and>
   FloatToFixed cv (f64 49999999999999996 1000000000000000000) 1 = f64 1 10 \<and>
   toFixed_spec (f64 4503599627370497 10) 1 = f64 4503599627370497 10 \<and>
   FloatToFixed cv (f64 4503599627370497 10) 1 = f64 4503599627370498 10 \<and>
   f64 4503599627370498 10 \<noteq> f64 4503599627370497 10"
proof -
  have a: "toFixed_spec (f64 (- 3) 2) 1 = f64 (- 3) 2" "signbit (f64 (- 3) 2)"
    by (simp_all add: toFixed_spec_def float_eval)
  have "fadd (fmul (f64 (- 3) 2) (Pow10 1)) (Copysign (f64 1 2) (fmul (f64 (- 3) 2) (Pow10 1))) =
      f64 (- 31) 2"
    by (simp add: float_eval)
  moreover have "uint64_of cv (f64 (- 31) 2) = cv (f64 (- 31) 2)"
    by (simp add: float_eval)
  ultimately have b: "FloatToFixed cv (f64 (- 3) 2) 1 =
      fdiv (float64_of_uint64 (cv (f64 (- 31) 2))) (Pow10 1)"
    by (simp add: FloatToFixed_def roundFloat_def)
  have c: "\<not> signbit (FloatToFixed cv x p)"
    by (rule FloatToFixed_not_negative)
  have d: "toFixed_spec (f64 49999999999999996 1000000000000000000) 1 = Zero False"
    by (simp add: toFixed_spec_def float_eval)
  have e: "FloatToFixed cv (f64 49999999999999996 1000000000000000000) 1 = f64 1 10"
    by (simp add: round_eval float_eval)
  have f: "toFixed_spec (f64 4503599627370497 10) 1 = f64 4503599627370497 10"
    by (simp add: toFixed_spec_def float_eval)
  have g: "FloatToFixed cv (f64 4503599627370497 10) 1 = f64 4503599627370498 10"
    by (simp add: round_eval float_eval)
  have h: "f64 4503599627370498 10 \<noteq> f64 4503599627370497 10"
    by (simp add: float_eval)
  from a b c d e f g h show ?thesis by blast
qed

subsection \<open>C5: identity conversion\<close>

text \<open>
  Claim C5: for every amount that is not negative, every date whose day is fetched and
  every code that is in the day's list or is the euro, converting from the code to
  itself returns the amount rounded to the configured precision.
\<close>

theorem Convert_identity:
  assumes "fle (Zero False) a"
    and "Fetch w t c = (c', dayData, None)"
    and "C \<in> Currency ` set dayData \<or> C = EUCurr"
  shows "Convert w a C C t c = (c', FloatToFixed (uint64_conv w) a (prec c), None)"
proof -
  obtain r where r: "resolve C C dayData = (Some r, Some r)"
    using resolve_same [OF assms(3)] by blast
  have p: "prec c' = prec c"
    using assms(2) by (rule Fetch_prec)
  show ?thesis
    using assms(1,2) r p
    by (simp add: Convert_def computeExchangeValue_def fle_zero_not_flt)
qed

text \<open>Witness: 10.123456 dollars to dollars at precision 4 are 10.1235.\<close>

theorem Convert_identity_witness:
  "fle (Zero False) (f64 10123456 1000000) \<and>
   Fetch served (Date 2016 11 11 23 0 0 0) (New 4 0) = (fetched (New 4 0), day_11, None) \<and>
   ''USD'' \<in> Currency ` set day_11 \<and>
   Convert served (f64 10123456 1000000) ''USD'' ''USD'' (Date 2016 11 11 23 0 0 0) (New 4 0) =
     (fetched (New 4 0), f64 101235 10000, None)"
proof -
  have a: "fle (Zero False) (f64 10123456 1000000)"
    by (simp add: float_eval)
  have u: "''USD'' \<in> Currency ` set day_11"
    by (simp add: day_11_def)
  have w: "uint64_conv served = no_conv64"
    by (simp add: served_def)
  show ?thesis
    using Convert_identity [OF a Fetch_day_11 [OF new_client], of "''USD''"] a u
    by (simp add: Fetch_day_11 [OF new_client] new_client w rounded_amount)
qed

subsection \<open>C6: the freshness check\<close>

text \<open>
  Claim C6 says that a client that has never fetched always makes a request, whatever
  the refresh interval. The stored time of a new client is the zero time, and the time
  elapsed since then is the largest duration, 9223372036 whole seconds: a new client
  with an interval of ten thousand million seconds makes no request on its first call,
  and \<open>Fetch\<close> goes on to read the days of the nil document (line 240).
\<close>

theorem Fetch_never_fetched:
  "lastFetched (New 4 10000000000) = zero_time \<and> XRefData (New 4 10000000000) = None \<and>
   RefreshInterval (New 4 10000000000) = 10000000000 \<and>
   fetchXML served (New 4 10000000000) = (tick (New 4 10000000000), None) \<and>
   get_calls (tick (New 4 10000000000)) = 0 \<and>
   Fetch served (Date 2016 11 11 23 0 0 0) (New 4 10000000000) =
     (tick (New 4 10000000000), [], Some NilPointerPanic)"
proof -
  have n: "lastFetched (New 4 10000000000) = zero_time"
    "RefreshInterval (New 4 10000000000) = 10000000000"
    "XRefData (New 4 10000000000) = None" "get_calls (New 4 10000000000) = 0"
    by (simp_all add: New_def)
  have k: "clock served n = Date 2016 11 12 10 0 0 0" for n
    by (simp add: served_def)
  have f: "fetchXML served (New 4 10000000000) = (tick (New 4 10000000000), None)"
    by (simp add: fetchXML_def fresh_def n k elapsed_saturated [OF now_late])
  show ?thesis
    by (simp add: n f Fetch_def) (simp add: tick_def n)
qed

subsection \<open>C7: the reference currency\<close>

text \<open>
  Claim C7: for every day's list, a source or target that is the euro resolves to the
  record made for it, with rate 1, whether or not the list has a record with that code.
\<close>

theorem resolve_euro:
  "(source = EUCurr \<longrightarrow>
      fst (resolve source target dayData) = Some \<lparr>Currency = EUCurr, Rate = f64 1 1\<rparr>) \<and>
   (target = EUCurr \<longrightarrow>
      snd (resolve source target dayData) = Some \<lparr>Currency = EUCurr, Rate = f64 1 1\<rparr>)"
  using with_euro_source with_euro_target by (simp add: resolve_def EURate_def)

text \<open>
  Witness: the euro as source over a list that holds a record for it, and as target;
  the rate is the float64 1.
\<close>

theorem resolve_euro_witness:
  "resolve EUCurr ''USD'' (\<lparr>Currency = ''EUR'', Rate = f64 2 1\<rparr> # day_11) =
     (Some \<lparr>Currency = EUCurr, Rate = f64 1 1\<rparr>,
      Some \<lparr>Currency = ''USD'', Rate = f64 1002 1000\<rparr>) \<and>
   resolve ''CHF'' EUCurr day_11 =
     (Some \<lparr>Currency = ''CHF'', Rate = f64 103 100\<rparr>,
      Some \<lparr>Currency = EUCurr, Rate = f64 1 1\<rparr>) \<and>
   f64 1 1 = Finite (2 ^ 52) (- 52)"
proof -
  have a: "snd (resolve EUCurr ''USD'' (\<lparr>Currency = ''EUR'', Rate = f64 2 1\<rparr> # day_11)) =
      Some \<lparr>Currency = ''USD'', Rate = f64 1002 1000\<rparr>"
    by (simp add: resolve_def day_11_def EUCurr_def)
  have b: "fst (resolve ''CHF'' EUCurr day_11) = Some \<lparr>Currency = ''CHF'', Rate = f64 103 100\<rparr>"
    by (simp add: resolve_def day_11_def EUCurr_def)
  have c: "f64 1 1 = Finite (2 ^ 52) (- 52)"
    by (simp add: float_eval)
  show ?thesis
    using resolve_euro [of EUCurr "''USD''" "\<lparr>Currency = ''EUR'', Rate = f64 2 1\<rparr> # day_11"]
      resolve_euro [of "''CHF''" EUCurr day_11] a b c
    by (simp add: prod_eq_iff)
qed

subsection \<open>C8: a date without data\<close>

text \<open>
  Claim C8: for every date, once the feed is fetched, \<open>Fetch\<close> fails with the same
  error, which names the date and the 90-day window, when no day of the document has the
  date's key and when the first day that has it holds no rates.
\<close>

theorem Fetch_date_not_found:
  assumes "fetchXML w c = (c', None)"
    and "XRefData c' = Some doc"
    and "find (\<lambda>d. RateTime d = Format t) (Data doc) = None \<or>
         (\<exists>d. find (\<lambda>d. RateTime d = Format t) (Data doc) = Some d \<and> Rates d = [])"
  shows "Fetch w t c = (c', [], Some (DateNotFound (Format t))) \<and>
         message (DateNotFound (Format t)) =
           ''Currency data for '' @ Format t @
           '' doesn't exist. Records are only available for past 90 days, excluding present day.''"
proof -
  have "lookup_day (Format t) (Data doc) = []"
    using assms(3) by (auto simp: lookup_day_find)
  then show ?thesis
    using assms(1,2) by (simp add: Fetch_def)
qed

text \<open>Witness: a date the feed does not have, and the feed's empty day.\<close>

theorem Fetch_date_not_found_witness:
  "Fetch served (Date 2002 11 8 23 0 0 0) (New 4 0) =
     (fetched (New 4 0), [], Some (DateNotFound ''2002-11-08'')) \<and>
   Fetch served (Date 2016 11 8 23 0 0 0) (New 4 0) =
     (fetched (New 4 0), [], Some (DateNotFound ''2016-11-08'')) \<and>
   message (DateNotFound ''2016-11-08'') =
     ''Currency data for 2016-11-08 doesn't exist. Records are only available for past 90 days, excluding present day.''"
proof -
  have f: "fetchXML served (New 4 0) = (fetched (New 4 0), None)"
    using new_client(1) by (rule fetchXML_served)
  have k: "Format (Date 2002 11 8 23 0 0 0) = ''2002-11-08''"
    "Format (Date 2016 11 8 23 0 0 0) = ''2016-11-08''"
    by (simp_all add: time_eval)
  have a: "find (\<lambda>d. RateTime d = ''2002-11-08'') (Data feed) = None"
    by (simp add: feed_def)
  have b: "find (\<lambda>d. RateTime d = ''2016-11-08'') (Data feed) =
      Some \<lparr>RateTime = ''2016-11-08'', Rates = []\<rparr>"
    by (simp add: feed_def)
  show ?thesis
    using Fetch_date_not_found [OF f fetched_client(3), of "Date 2002 11 8 23 0 0 0"]
      Fetch_date_not_found [OF f fetched_client(3), of "Date 2016 11 8 23 0 0 0"]
    by (simp add: k a b)
qed

subsection \<open>C9: the full history stops at the first failure\<close>

text \<open>
  Claim C9, as amended: once the feed is fetched, if the days before some day of the
  document resolve and that day fails (its stamp does not parse, or its \<open>Fetch\<close>
  fails, as for a day without rates), \<open>FetchAll\<close> returns that day's error at once,
  together with the map of the days before it, which are exactly its keys.
\<close>

theorem FetchAll_fail_fast:
  assumes "fetchXML w c = (c0, None)"
    and "XRefData c0 = Some doc"
    and "Data doc = pre @ dayD # post"
    and "fetch_days w pre c0 Map.empty = (cm, rates, None)"
    and "(Parse (RateTime dayD) = None \<and> c' = cm \<and> err = TimeParseFailed (RateTime dayD)) \<or>
         (\<exists>t d. Parse (RateTime dayD) = Some t \<and> Fetch w t cm = (c', d, Some err))"
  shows "FetchAll w c = (c', rates, Some err) \<and>
         dom rates = {t. \<exists>d \<in> set pre. Parse (RateTime d) = Some t}"
proof -
  have "fetch_days w (pre @ dayD # post) c0 Map.empty = fetch_days w (dayD # post) cm rates"
    using assms(4) by (rule fetch_days_append)
  moreover have "fetch_days w (dayD # post) cm rates = (c', rates, Some err)"
    using assms(5) by auto
  ultimately have "FetchAll w c = (c', rates, Some err)"
    using assms(1,2,3) by (simp add: FetchAll_def)
  moreover have "dom rates = {t. \<exists>d \<in> set pre. Parse (RateTime d) = Some t}"
    using fetch_days_dom [OF assms(4)] by simp
  ultimately show ?thesis by simp
qed

text \<open>Witness: the sample feed, whose second day has no rates.\<close>

theorem FetchAll_fail_fast_witness:
  "FetchAll served (New 4 0) =
     (fetched (fetched (fetched (New 4 0))),
      [Date 2016 11 11 0 0 0 0 \<mapsto> day_11],
      Some (DateNotFound ''2016-11-08'')) \<and>
   dom [Date 2016 11 11 0 0 0 0 \<mapsto> day_11] = {Date 2016 11 11 0 0 0 0}"
proof -
  have f: "fetchXML served (New 4 0) = (fetched (New 4 0), None)"
    using new_client(1) by (rule fetchXML_served)
  have d: "Data feed = [\<lparr>RateTime = ''2016-11-11'', Rates = [
        \<lparr>raw_Currency = ''USD'', raw_Rate = ''1.002''\<rparr>,
        \<lparr>raw_Currency = ''CHF'', raw_Rate = ''1.03''\<rparr>]\<rparr>] @
      \<lparr>RateTime = ''2016-11-08'', Rates = []\<rparr> # []"
    by (simp add: feed_def)
  have p: "Parse ''2016-11-08'' = Some (Date 2016 11 8 0 0 0 0)"
    by (simp add: digit_def daysIn_def isLeap_def Date_def)
  have e: "\<exists>t d. Parse (RateTime \<lparr>RateTime = ''2016-11-08'', Rates = []\<rparr>) = Some t \<and>
      Fetch served t (fetched (fetched (New 4 0))) =
        (fetched (fetched (fetched (New 4 0))), d, Some (DateNotFound ''2016-11-08''))"
    using p second_day by simp
  show ?thesis
    using FetchAll_fail_fast [OF f fetched_client(3) d first_day disjI2, OF e] by simp
qed

text \<open>
  Counterexample to C9 as stated: on the sample feed \<open>FetchAll\<close> returns the error of
  the empty day and a map that holds the day before it.
\<close>

theorem FetchAll_partial_map_counterexample:
  "snd (snd (FetchAll served (New 4 0))) = Some (DateNotFound ''2016-11-08'') \<and>
   fst (snd (FetchAll served (New 4 0))) (Date 2016 11 11 0 0 0 0) = Some day_11"
proof -
  have f: "fetchXML served (New 4 0) = (fetched (New 4 0), None)"
    using new_client(1) by (rule fetchXML_served)
  have "FetchAll served (New 4 0) =
      fetch_days served ([\<lparr>RateTime = ''2016-11-11'', Rates = [
        \<lparr>raw_Currency = ''USD'', raw_Rate = ''1.002''\<rparr>,
        \<lparr>raw_Currency = ''CHF'', raw_Rate = ''1.03''\<rparr>]\<rparr>] @
        [\<lparr>RateTime = ''2016-11-08'', Rates = []\<rparr>]) (fetched (New 4 0)) Map.empty"
    by (simp add: FetchAll_def f fetched_client) (simp add: feed_def)
  also have "\<dots> = fetch_days served [\<lparr>RateTime = ''2016-11-08'', Rates = []\<rparr>]
      (fetched (fetched (New 4 0))) [Date 2016 11 11 0 0 0 0 \<mapsto> day_11]"
    using first_day by (rule fetch_days_append)
  also have "\<dots> = (fetched (fetched (fetched (New 4 0))),
      [Date 2016 11 11 0 0 0 0 \<mapsto> day_11], Some (DateNotFound ''2016-11-08''))"
    using second_day by (simp add: digit_def daysIn_def isLeap_def Date_def)
  finally show ?thesis by simp
qed

subsection \<open>C10: rates are read at 32-bit precision\<close>

text \<open>
  Claim C10: for every raw rate that parses, the rate of the result is what
  \<open>ParseFloat\<close> returns at bit size 32; for a decimal \<open>n / d\<close> in the range of the
  format that is a float64 denoting \<open>m * 2^x\<close> exactly, with a mantissa \<open>m\<close> of at
  most 24 bits that is within half a unit in the last place of \<open>n / d\<close>.
\<close>

theorem newExchangeRate_float32:
  "(newExchangeRate r = Inr e \<longrightarrow>
      Currency e = raw_Currency r \<and> ParseFloat (raw_Rate r) 32 = Inr (Rate e)) \<and>
   (special (raw_Rate r) = None \<longrightarrow> readFloat (raw_Rate r) = Some (neg, n, d) \<longrightarrow>
    round_ratio binary32 n d = Finite m x \<longrightarrow>
      newExchangeRate r =
        Inr \<lparr>Currency = raw_Currency r, Rate = widen (Finite (if neg then - m else m) x)\<rparr> \<and>
      valof (widen (Finite (if neg then - m else m) x)) =
        real_of_int (if neg then - m else m) * 2 powi x \<and>
      \<bar>m\<bar> < 2 ^ 24 \<and>
      \<bar>real_of_int m * 2 powi x - real_of_int n / real_of_int d\<bar> \<le> 2 powi x / 2)"
proof -
  have a: "newExchangeRate r = Inr e \<longrightarrow>
      Currency e = raw_Currency r \<and> ParseFloat (raw_Rate r) 32 = Inr (Rate e)"
    by (cases "ParseFloat (raw_Rate r) 32") (auto simp: newExchangeRate_def)
  have b: "newExchangeRate r =
        Inr \<lparr>Currency = raw_Currency r, Rate = widen (Finite (if neg then - m else m) x)\<rparr> \<and>
      valof (widen (Finite (if neg then - m else m) x)) =
        real_of_int (if neg then - m else m) * 2 powi x \<and>
      \<bar>m\<bar> < 2 ^ 24 \<and>
      \<bar>real_of_int m * 2 powi x - real_of_int n / real_of_int d\<bar> \<le> 2 powi x / 2"
    if s: "special (raw_Rate r) = None" and f: "readFloat (raw_Rate r) = Some (neg, n, d)"
      and q: "round_ratio binary32 n d = Finite m x"
  proof -
    have d: "0 < d"
      using f by (rule readFloat_denominator)
    have p: "0 < mant_bits binary32"
      by (simp add: binary32_def)
    note rn = round_ratio_nearest [OF d p q]
    have m: "m \<noteq> 0" "\<bar>m\<bar> < 2 ^ 24" "- 149 \<le> x" "x \<le> 104"
      using rn(1-4) by (simp_all add: binary32_def)
    have w: "valof (widen (Finite (if neg then - m else m) x)) =
        real_of_int (if neg then - m else m) * 2 powi x"
      using m by (intro widen_exact) simp_all
    have "newExchangeRate r =
        Inr \<lparr>Currency = raw_Currency r, Rate = widen (Finite (if neg then - m else m) x)\<rparr>"
      using s f q by (simp add: newExchangeRate_def ParseFloat_def format_of_def)
    with w m(2) rn(5) show ?thesis by simp
  qed
  from a b show ?thesis by blast
qed

text \<open>
  Witness: the rate 1.003123142 of the test feed becomes 8414807 / 8388608, about
  1.0031232, which is not the float64 nearest to the decimal.
\<close>

theorem newExchangeRate_float32_witness:
  "special ''1.003123142'' = None \<and>
   readFloat ''1.003123142'' = Some (False, 1003123142, 1000000000) \<and>
   round_ratio binary32 1003123142 1000000000 = Finite 8414807 (- 23) \<and>
   newExchangeRate \<lparr>raw_Currency = ''USD'', raw_Rate = ''1.003123142''\<rparr> =
     Inr \<lparr>Currency = ''USD'', Rate = f64 8414807 8388608\<rparr> \<and>
   valof (f64 8414807 8388608) = 8414807 * 2 powi (- 23) \<and>
   \<bar>8414807 * 2 powi (- 23) - 1003123142 / (1000000000 :: real)\<bar> \<le> 2 powi (- 23) / 2 \<and>
   ParseFloat ''1.003123142'' 32 = Inr (f64 8414807 8388608) \<and>
   ParseFloat ''1.003123142'' 64 = Inr (f64 1003123142 1000000000) \<and>
   f64 8414807 8388608 \<noteq> f64 1003123142 1000000000"
proof -
  have s: "special ''1.003123142'' = None"
    by (simp add: parse_eval)
  have r: "readFloat ''1.003123142'' = Some (False, 1003123142, 1000000000)"
    by (simp add: parse_eval)
  have q: "round_ratio binary32 1003123142 1000000000 = Finite 8414807 (- 23)"
    by (simp add: float_eval)
  have w: "widen (Finite 8414807 (- 23)) = f64 8414807 8388608"
    by (simp add: float_eval)
  have p: "ParseFloat ''1.003123142'' 64 = Inr (f64 1003123142 1000000000)"
    by (simp add: ParseFloat_def s r format_of_def) (simp add: float_eval)
  have d: "f64 8414807 8388608 \<noteq> f64 1003123142 1000000000"
    by (simp add: float_eval)
  have n: "newExchangeRate \<lparr>raw_Currency = ''USD'', raw_Rate = ''1.003123142''\<rparr> =
      Inr \<lparr>Currency = ''USD'', Rate = f64 8414807 8388608\<rparr> \<and>
      valof (f64 8414807 8388608) = 8414807 * 2 powi (- 23) \<and>
      \<bar>8414807 * 2 powi (- 23) - 1003123142 / (1000000000 :: real)\<bar> \<le> 2 powi (- 23) / 2"
    using newExchangeRate_float32 [of "\<lparr>raw_Currency = ''USD'', raw_Rate = ''1.003123142''\<rparr>"
        _ False 1003123142 1000000000 8414807 "- 23"] s r q
    by (simp only: w RawExchangeRate.simps if_False simp_thms of_int_numeral)
  have "ParseFloat ''1.003123142'' 32 = Inr (f64 8414807 8388608)"
    using newExchangeRate_float32 [of "\<lparr>raw_Currency = ''USD'', raw_Rate = ''1.003123142''\<rparr>"
        "\<lparr>Currency = ''USD'', Rate = f64 8414807 8388608\<rparr>"] n
    by simp
  with s r q n p d show ?thesis by simp
qed

end
